theory Spec2Isabelle
  imports Complex_Main
begin

section \<open>The generic S-expression tree\<close>

text \<open>
  Modelled from the spec: the generic tree of section 6, which the decoder of
  \<^verbatim>\<open>modDecoder.go\<close> consumes from the external package \<^verbatim>\<open>github.com/nsf/sexp\<close>
  (no file of the repository). A node is either an atomic literal or an ordered list of
  nodes; the package keeps both in one struct,
  \<^verbatim>\<open>Node{Value string; Children *Node; Next *Node}\<close>, whose chain of children is a list
  here. A node is a list when it has children and a scalar when it has none.
\<close>

datatype node = Node (Value: string) (Children: "node list")

text \<open>
  Outcomes of the decoder other than a value: \<open>Err msg\<close> is \<^verbatim>\<open>errors.New(msg)\<close>,
  \<open>ErrPts kw\<close> is
  \<^verbatim>\<open>fmt.Errorf("cannot handle expression of type %q in fp_poly.pts stanza", kw)\<close>,
  and \<open>Panic\<close> is a run-time panic (a \<^verbatim>\<open>Must...\<close> accessor on a failed coercion, or a
  nil dereference): the call returns neither a value nor an error.
\<close>

datatype error = Err string | ErrPts string | Panic

definition bind :: "error + 'a \<Rightarrow> ('a \<Rightarrow> error + 'b) \<Rightarrow> error + 'b" where
  "bind m f = (case m of Inl e \<Rightarrow> Inl e | Inr v \<Rightarrow> f v)"

text \<open>
  Modelled from the spec: the navigation capability of section 6 (is-list, is-scalar, child
  count, child access with a defined failure out of range), in the two forms the source
  calls: the methods of a node pointer (\<open>NodeIsList\<close>, \<open>NumChildren\<close>, \<open>Nth\<close>) and those
  of \<^verbatim>\<open>sexp.Helper\<close>, which wraps a node pointer that may be missing. \<open>None\<close> is the
  invalid helper: a child out of range, or a child of a scalar, is invalid, an accessor on
  an invalid helper answers no, and \<^verbatim>\<open>MustNode\<close> panics on it.
\<close>

type_synonym helper = "node option"

definition Help :: "node \<Rightarrow> helper" where
  "Help n = Some n"

definition NumChildren :: "node \<Rightarrow> nat" where
  "NumChildren n = length (Children n)"

definition NodeIsList :: "node \<Rightarrow> bool" where
  "NodeIsList n = (Children n \<noteq> [])"

definition Nth :: "node \<Rightarrow> nat \<Rightarrow> node option" where
  "Nth n i = (if i < length (Children n) then Some (Children n ! i) else None)"

definition Child :: "helper \<Rightarrow> nat \<Rightarrow> helper" where
  "Child h i = (case h of None \<Rightarrow> None | Some n \<Rightarrow> Nth n i)"

definition IsValid :: "helper \<Rightarrow> bool" where
  "IsValid h = (h \<noteq> None)"

definition IsList :: "helper \<Rightarrow> bool" where
  "IsList h = (case h of None \<Rightarrow> False | Some n \<Rightarrow> NodeIsList n)"

definition IsScalar :: "helper \<Rightarrow> bool" where
  "IsScalar h = (case h of None \<Rightarrow> False | Some n \<Rightarrow> \<not> NodeIsList n)"

definition MustNode :: "helper \<Rightarrow> error + node" where
  "MustNode h = (case h of None \<Rightarrow> Inl Panic | Some n \<Rightarrow> Inr n)"

text \<open>
  Modelled from the spec: the coercions of section 6, each failing when the node cannot be
  coerced. An invalid helper and a list node coerce to nothing; a scalar coerces to a
  string as it is, and to a number when its literal parses. The two number parsers of Go
  (\<^verbatim>\<open>strconv.ParseFloat\<close>, \<^verbatim>\<open>strconv.ParseInt\<close>) are the parameters \<open>pf\<close> and \<open>pint\<close>
  of the model; the type \<open>'f\<close> stands for \<^verbatim>\<open>float64\<close>, of which only the zero value is
  used. The \<^verbatim>\<open>Must...\<close> accessors panic where the plain ones return an error.
\<close>

definition String :: "helper \<Rightarrow> string option" where
  "String h = (case h of None \<Rightarrow> None
     | Some n \<Rightarrow> if NodeIsList n then None else Some (node.Value n))"

definition Float64 :: "(string \<Rightarrow> 'f option) \<Rightarrow> helper \<Rightarrow> 'f option" where
  "Float64 pf h = (case h of None \<Rightarrow> None
     | Some n \<Rightarrow> if NodeIsList n then None else pf (node.Value n))"

definition Int_h :: "(string \<Rightarrow> int option) \<Rightarrow> helper \<Rightarrow> int option" where
  "Int_h pint h = (case h of None \<Rightarrow> None
     | Some n \<Rightarrow> if NodeIsList n then None else pint (node.Value n))"

definition MustString :: "helper \<Rightarrow> error + string" where
  "MustString h = (case String h of None \<Rightarrow> Inl Panic | Some s \<Rightarrow> Inr s)"

definition MustFloat64 :: "(string \<Rightarrow> 'f option) \<Rightarrow> helper \<Rightarrow> error + 'f" where
  "MustFloat64 pf h = (case Float64 pf h of None \<Rightarrow> Inl Panic | Some v \<Rightarrow> Inr v)"

section \<open>The footprint model\<close>

record 'f Point2D =
  X :: 'f
  Y :: 'f

record 'f FpLine =
  Start :: "'f Point2D"
  End :: "'f Point2D"
  Layer :: string
  Width :: 'f

record 'f FpCircle =
  Center :: "'f Point2D"
  End :: "'f Point2D"
  Layer :: string
  Width :: 'f

record 'f FpArc =
  Start :: "'f Point2D"
  End :: "'f Point2D"
  Layer :: string
  Angle :: 'f
  Width :: 'f

record 'f FpPoly =
  At :: "'f Point2D"
  Points :: "'f Point2D list"
  Layer :: string
  Width :: 'f

record 'f FpText =
  Pos :: "'f Point2D"
  Kind :: string
  Value :: string
  Layer :: string
  Hidden :: bool
  Size :: "'f Point2D"
  Thickness :: 'f

record 'f Drill =
  Kind :: string
  Scalar :: 'f
  Ellipse :: "'f Point2D"
  Offset :: "'f Point2D"

record 'f Pad =
  Pin :: int
  Kind :: string
  Shape :: string
  Drill :: "'f Drill"
  Pos :: "'f Point2D"
  Size :: "'f Point2D"
  Layers :: "string list"

record 'f Module =
  Name :: string
  Tedit :: string
  Description :: string
  Layer :: string
  Position :: "'f Point2D"
  Clearance :: 'f
  Model :: string
  SolderMaskMargin :: 'f
  SolderPasteMargin :: 'f
  SolderPasteRatio :: 'f
  Tags :: "string list"
  Attrs :: "string list"
  Lines :: "'f FpLine list"
  Arcs :: "'f FpArc list"
  Circles :: "'f FpCircle list"
  Polygons :: "'f FpPoly list"
  Texts :: "'f FpText list"
  Pads :: "'f Pad list"

text \<open>The zero values of the Go structs (\<^verbatim>\<open>Point2D{}\<close>, \<^verbatim>\<open>FpLine{}\<close>, ...).\<close>

definition zeroPoint :: "('f::zero) Point2D" where
  "zeroPoint = \<lparr>X = 0, Y = 0\<rparr>"

definition zeroLine :: "('f::zero) FpLine" where
  "zeroLine = \<lparr>FpLine.Start = zeroPoint, FpLine.End = zeroPoint, FpLine.Layer = [],
     FpLine.Width = 0\<rparr>"

definition zeroCircle :: "('f::zero) FpCircle" where
  "zeroCircle = \<lparr>FpCircle.Center = zeroPoint, FpCircle.End = zeroPoint, FpCircle.Layer = [],
     FpCircle.Width = 0\<rparr>"

definition zeroArc :: "('f::zero) FpArc" where
  "zeroArc = \<lparr>FpArc.Start = zeroPoint, FpArc.End = zeroPoint, FpArc.Layer = [],
     FpArc.Angle = 0, FpArc.Width = 0\<rparr>"

definition zeroPoly :: "('f::zero) FpPoly" where
  "zeroPoly = \<lparr>FpPoly.At = zeroPoint, FpPoly.Points = [], FpPoly.Layer = [],
     FpPoly.Width = 0\<rparr>"

definition zeroText :: "('f::zero) FpText" where
  "zeroText = \<lparr>FpText.Pos = zeroPoint, FpText.Kind = [], FpText.Value = [],
     FpText.Layer = [], FpText.Hidden = False, FpText.Size = zeroPoint,
     FpText.Thickness = 0\<rparr>"

definition zeroDrill :: "('f::zero) Drill" where
  "zeroDrill = \<lparr>Drill.Kind = [], Drill.Scalar = 0, Drill.Ellipse = zeroPoint,
     Drill.Offset = zeroPoint\<rparr>"

definition zeroPad :: "('f::zero) Pad" where
  "zeroPad = \<lparr>Pad.Pin = 0, Pad.Kind = [], Pad.Shape = [], Pad.Drill = zeroDrill,
     Pad.Pos = zeroPoint, Pad.Size = zeroPoint, Pad.Layers = []\<rparr>"

definition zeroModule :: "('f::zero) Module" where
  "zeroModule = \<lparr>Module.Name = [], Module.Tedit = [], Module.Description = [],
     Module.Layer = [], Module.Position = zeroPoint, Module.Clearance = 0,
     Module.Model = [], Module.SolderMaskMargin = 0, Module.SolderPasteMargin = 0,
     Module.SolderPasteRatio = 0, Module.Tags = [], Module.Attrs = [], Module.Lines = [],
     Module.Arcs = [], Module.Circles = [], Module.Polygons = [], Module.Texts = [],
     Module.Pads = []\<rparr>"

section \<open>Loops over the children of a node\<close>

text \<open>
  The Go loop
  \<^verbatim>\<open>for x := k; x < n.MustNode().NumChildren(); x++ { body }\<close>
  where the body neither changes \<open>x\<close> nor returns a value early: the bound is read again
  at every round (and panics on an invalid helper), an error or a panic of the body ends
  the loop. The two recursive loops spell their error propagation out with \<open>case\<close>; it
  is the one of \<open>bind\<close>.
\<close>

function forChildren ::
  "(nat \<Rightarrow> 'a \<Rightarrow> error + 'a) \<Rightarrow> helper \<Rightarrow> nat \<Rightarrow> 'a \<Rightarrow> error + 'a" where
  "forChildren body n x a =
     (case MustNode n of
        Inl e \<Rightarrow> Inl e
      | Inr nd \<Rightarrow>
          if x < NumChildren nd then
            (case body x a of
               Inl e \<Rightarrow> Inl e
             | Inr a' \<Rightarrow> forChildren body n (x + 1) a')
          else Inr a)"
  by pat_completeness auto
termination
  by (relation "measure (\<lambda>(body, n, x, a).
        (case n of None \<Rightarrow> 0 | Some nd \<Rightarrow> NumChildren nd) - x)")
     (auto simp: MustNode_def split: option.splits)

declare forChildren.simps [simp del]

section \<open>The extractors\<close>

text \<open>
  The expression
  \<^verbatim>\<open>Point2D{X: c.Child(1).MustFloat64(), Y: c.Child(2).MustFloat64()}\<close>,
  which the source writes out at every two-coordinate clause \<open>c\<close>.
\<close>

definition xyArgs :: "(string \<Rightarrow> 'f option) \<Rightarrow> helper \<Rightarrow> error + 'f Point2D" where
  "xyArgs pf c =
     bind (MustFloat64 pf (Child c 1)) (\<lambda>x.
     bind (MustFloat64 pf (Child c 2)) (\<lambda>y.
       Inr \<lparr>X = x, Y = y\<rparr>))"

definition unmarshalFpArc :: "(string \<Rightarrow> 'f option) \<Rightarrow> helper \<Rightarrow> error + ('f::zero) FpArc" where
  "unmarshalFpArc pf n =
     forChildren (\<lambda>x arc.
       bind (MustString (Child (Child n x) 0)) (\<lambda>kw.
         if kw = ''start'' then
           bind (xyArgs pf (Child n x)) (\<lambda>p. Inr (arc\<lparr>FpArc.Start := p\<rparr>))
         else if kw = ''end'' then
           bind (xyArgs pf (Child n x)) (\<lambda>p. Inr (arc\<lparr>FpArc.End := p\<rparr>))
         else if kw = ''layer'' then
           bind (MustString (Child (Child n x) 1)) (\<lambda>s. Inr (arc\<lparr>FpArc.Layer := s\<rparr>))
         else if kw = ''width'' then
           bind (MustFloat64 pf (Child (Child n x) 1)) (\<lambda>w. Inr (arc\<lparr>FpArc.Width := w\<rparr>))
         else if kw = ''angle'' then
           bind (MustFloat64 pf (Child (Child n x) 1)) (\<lambda>w. Inr (arc\<lparr>FpArc.Angle := w\<rparr>))
         else Inr arc))
       n 1 zeroArc"

definition unmarshalFpCircle ::
  "(string \<Rightarrow> 'f option) \<Rightarrow> helper \<Rightarrow> error + ('f::zero) FpCircle" where
  "unmarshalFpCircle pf n =
     forChildren (\<lambda>x circle.
       bind (MustString (Child (Child n x) 0)) (\<lambda>kw.
         if kw = ''center'' then
           bind (xyArgs pf (Child n x)) (\<lambda>p. Inr (circle\<lparr>FpCircle.Center := p\<rparr>))
         else if kw = ''end'' then
           bind (xyArgs pf (Child n x)) (\<lambda>p. Inr (circle\<lparr>FpCircle.End := p\<rparr>))
         else if kw = ''layer'' then
           bind (MustString (Child (Child n x) 1)) (\<lambda>s. Inr (circle\<lparr>FpCircle.Layer := s\<rparr>))
         else if kw = ''width'' then
           bind (MustFloat64 pf (Child (Child n x) 1)) (\<lambda>w. Inr (circle\<lparr>FpCircle.Width := w\<rparr>))
         else Inr circle))
       n 1 zeroCircle"

text \<open>
  One round of the inner loop of the \<^verbatim>\<open>pts\<close> case of \<^verbatim>\<open>unmarshalFpPoly\<close>, over
  the helper \<open>s = n.Child(x)\<close>: an \<^verbatim>\<open>xy\<close> child is appended, any other keyword is
  the error of \<^verbatim>\<open>fmt.Errorf\<close>.
\<close>

definition ptsItem ::
  "(string \<Rightarrow> 'f option) \<Rightarrow> helper \<Rightarrow> nat \<Rightarrow> 'f FpPoly \<Rightarrow> error + 'f FpPoly" where
  "ptsItem pf s i p =
     bind (MustString (Child (Child s i) 0)) (\<lambda>kw.
       if kw = ''xy'' then
         bind (xyArgs pf (Child s i)) (\<lambda>pt. Inr (p\<lparr>FpPoly.Points := FpPoly.Points p @ [pt]\<rparr>))
       else Inl (ErrPts kw))"

definition unmarshalFpPoly :: "(string \<Rightarrow> 'f option) \<Rightarrow> helper \<Rightarrow> error + ('f::zero) FpPoly" where
  "unmarshalFpPoly pf n =
     forChildren (\<lambda>x p.
       bind (MustString (Child (Child n x) 0)) (\<lambda>kw.
         if kw = ''at'' then
           bind (xyArgs pf (Child n x)) (\<lambda>pt. Inr (p\<lparr>FpPoly.At := pt\<rparr>))
         else if kw = ''pts'' then
           forChildren (ptsItem pf (Child n x)) (Child n x) 1 p
         else if kw = ''layer'' then
           bind (MustString (Child (Child n x) 1)) (\<lambda>s. Inr (p\<lparr>FpPoly.Layer := s\<rparr>))
         else if kw = ''width'' then
           bind (MustFloat64 pf (Child (Child n x) 1)) (\<lambda>w. Inr (p\<lparr>FpPoly.Width := w\<rparr>))
         else Inr p))
       n 1 zeroPoly"

definition unmarshalFpLine :: "(string \<Rightarrow> 'f option) \<Rightarrow> helper \<Rightarrow> error + ('f::zero) FpLine" where
  "unmarshalFpLine pf n =
     forChildren (\<lambda>x line.
       bind (MustString (Child (Child n x) 0)) (\<lambda>kw.
         if kw = ''start'' then
           bind (xyArgs pf (Child n x)) (\<lambda>p. Inr (line\<lparr>FpLine.Start := p\<rparr>))
         else if kw = ''end'' then
           bind (xyArgs pf (Child n x)) (\<lambda>p. Inr (line\<lparr>FpLine.End := p\<rparr>))
         else if kw = ''layer'' then
           bind (MustString (Child (Child n x) 1)) (\<lambda>s. Inr (line\<lparr>FpLine.Layer := s\<rparr>))
         else if kw = ''width'' then
           bind (MustFloat64 pf (Child (Child n x) 1)) (\<lambda>w. Inr (line\<lparr>FpLine.Width := w\<rparr>))
         else Inr line))
       n 1 zeroLine"

text \<open>
  One round of the inner loop of the \<^verbatim>\<open>effects\<close> case of \<^verbatim>\<open>unmarshalFpText\<close>,
  over the helper \<open>s = n.Child(x).Child(1)\<close>.
\<close>

definition effectsItem ::
  "(string \<Rightarrow> 'f option) \<Rightarrow> helper \<Rightarrow> nat \<Rightarrow> 'f FpText \<Rightarrow> error + 'f FpText" where
  "effectsItem pf s i txt =
     (if \<not> IsScalar (Child (Child s i) 0) then Inr txt
      else
        bind (MustString (Child (Child s i) 0)) (\<lambda>kw.
          if kw = ''size'' then
            bind (xyArgs pf (Child s i)) (\<lambda>p. Inr (txt\<lparr>FpText.Size := p\<rparr>))
          else if kw = ''thickness'' then
            bind (MustFloat64 pf (Child (Child s i) 1)) (\<lambda>t. Inr (txt\<lparr>FpText.Thickness := t\<rparr>))
          else Inr txt))"

text \<open>One round of the outer loop of \<^verbatim>\<open>unmarshalFpText\<close>.\<close>

definition fpTextChild ::
  "(string \<Rightarrow> 'f option) \<Rightarrow> helper \<Rightarrow> nat \<Rightarrow> 'f FpText \<Rightarrow> error + 'f FpText" where
  "fpTextChild pf n x txt =
     (case (if IsScalar (Child n x) then String (Child n x) else None) of
        Some s \<Rightarrow> if s = ''hide'' then Inr (txt\<lparr>FpText.Hidden := True\<rparr>) else Inr txt
      | None \<Rightarrow>
          bind (MustString (Child (Child n x) 0)) (\<lambda>kw.
            if kw = ''at'' then
              bind (xyArgs pf (Child n x)) (\<lambda>p. Inr (txt\<lparr>FpText.Pos := p\<rparr>))
            else if kw = ''layer'' then
              bind (MustString (Child (Child n x) 1)) (\<lambda>s. Inr (txt\<lparr>FpText.Layer := s\<rparr>))
            else if kw = ''effects'' then
              forChildren (effectsItem pf (Child (Child n x) 1)) (Child (Child n x) 1) 1 txt
            else Inr txt))"

definition unmarshalFpText :: "(string \<Rightarrow> 'f option) \<Rightarrow> helper \<Rightarrow> error + ('f::zero) FpText" where
  "unmarshalFpText pf n =
     bind (MustString (Child n 1)) (\<lambda>k.
     bind (MustString (Child n 2)) (\<lambda>v.
       forChildren (fpTextChild pf n) n 3
         (zeroText\<lparr>FpText.Kind := k, FpText.Value := v\<rparr>)))"

text \<open>
  The loop of \<^verbatim>\<open>decodeDrill\<close>. Its kind branch returns from inside the loop, so it
  is written out as a recursion on the index \<open>x\<close> of the source.
\<close>

function drillLoop ::
  "(string \<Rightarrow> 'f option) \<Rightarrow> helper \<Rightarrow> nat \<Rightarrow> 'f Drill \<Rightarrow> error + 'f Drill" where
  "drillLoop pf n x d =
     (case MustNode n of
        Inl e \<Rightarrow> Inl e
      | Inr nd \<Rightarrow>
          if x < NumChildren nd then
            if IsList (Child n x) then
              (case MustString (Child (Child n x) 0) of
                 Inl e \<Rightarrow> Inl e
               | Inr kw \<Rightarrow>
                   if kw = ''offset'' then
                     (case xyArgs pf (Child n x) of
                        Inl e \<Rightarrow> Inl e
                      | Inr p \<Rightarrow> drillLoop pf n (x + 1) (d\<lparr>Drill.Offset := p\<rparr>))
                   else drillLoop pf n (x + 1) d)
            else
              (case Float64 pf (Child n x) of
                 None \<Rightarrow>
                   bind (MustString (Child n x)) (\<lambda>k.
                   bind (MustFloat64 pf (Child n (x + 1))) (\<lambda>ex.
                   bind (MustFloat64 pf (Child n (x + 2))) (\<lambda>ey.
                     Inr (d\<lparr>Drill.Kind := k, Drill.Ellipse := \<lparr>X = ex, Y = ey\<rparr>\<rparr>))))
               | Some _ \<Rightarrow>
                   (case MustFloat64 pf (Child n 1) of
                      Inl e \<Rightarrow> Inl e
                    | Inr r \<Rightarrow> drillLoop pf n (x + 1) (d\<lparr>Drill.Scalar := r\<rparr>)))
          else Inr d)"
  by pat_completeness auto
termination
  by (relation "measure (\<lambda>(pf, n, x, d).
        (case n of None \<Rightarrow> 0 | Some nd \<Rightarrow> NumChildren nd) - x)")
     (auto simp: MustNode_def split: option.splits)

declare drillLoop.simps [simp del]

definition decodeDrill :: "(string \<Rightarrow> 'f option) \<Rightarrow> helper \<Rightarrow> error + ('f::zero) Drill" where
  "decodeDrill pf n = drillLoop pf n 1 zeroDrill"

text \<open>One round of the loop of \<^verbatim>\<open>unmarshalPad\<close>.\<close>

definition padChild ::
  "(string \<Rightarrow> 'f option) \<Rightarrow> helper \<Rightarrow> nat \<Rightarrow> 'f Pad \<Rightarrow> error + ('f::zero) Pad" where
  "padChild pf n x pad =
     bind (MustString (Child (Child n x) 0)) (\<lambda>kw.
       if kw = ''at'' then
         bind (xyArgs pf (Child n x)) (\<lambda>p. Inr (pad\<lparr>Pad.Pos := p\<rparr>))
       else if kw = ''size'' then
         bind (xyArgs pf (Child n x)) (\<lambda>p. Inr (pad\<lparr>Pad.Size := p\<rparr>))
       else if kw = ''drill'' then
         bind (decodeDrill pf (Child n x)) (\<lambda>d. Inr (pad\<lparr>Pad.Drill := d\<rparr>))
       else if kw = ''layers'' then
         forChildren (\<lambda>i pad.
           bind (MustString (Child (Child n x) i)) (\<lambda>s.
             Inr (pad\<lparr>Pad.Layers := Pad.Layers pad @ [s]\<rparr>)))
           (Child n x) 1 pad
       else Inr pad)"

definition unmarshalPad ::
  "(string \<Rightarrow> 'f option) \<Rightarrow> (string \<Rightarrow> int option) \<Rightarrow> helper \<Rightarrow> error + ('f::zero) Pad" where
  "unmarshalPad pf pint n =
     bind (MustString (Child n 2)) (\<lambda>k.
     bind (MustString (Child n 3)) (\<lambda>sh.
       forChildren (padChild pf n) n 4
         (case Int_h pint (Child n 1) of
            Some v \<Rightarrow> zeroPad\<lparr>Pad.Pin := v, Pad.Kind := k, Pad.Shape := sh\<rparr>
          | None \<Rightarrow> zeroPad\<lparr>Pad.Kind := k, Pad.Shape := sh\<rparr>)))"

section \<open>The top-level decoder\<close>

text \<open>
  One round of the loop of \<^verbatim>\<open>DecodeModule\<close>, over the clause
  \<open>n = sexp.Help(mainAST).Child(i)\<close>: a clause that is not a list with a second child
  is passed over, the others are dispatched on their first child.
\<close>

definition moduleClause ::
  "(string \<Rightarrow> 'f option) \<Rightarrow> (string \<Rightarrow> int option) \<Rightarrow> helper \<Rightarrow> 'f Module
     \<Rightarrow> error + ('f::zero) Module" where
  "moduleClause pf pint n out =
     (if IsList n \<and> IsValid (Child n 1) then
        bind (MustString (Child n 0)) (\<lambda>kw.
          if kw = ''zone_connect'' \<or> kw = ''path'' \<or> kw = ''autoplace_cost90''
             \<or> kw = ''autoplace_cost180'' then Inr out
          else if kw = ''layer'' then
            (case String (Child n 1) of
               None \<Rightarrow> Inl (Err ''invalid format: layer value must be a string'')
             | Some s \<Rightarrow> Inr (out\<lparr>Module.Layer := s\<rparr>))
          else if kw = ''tedit'' then
            (case String (Child n 1) of
               None \<Rightarrow> Inl (Err ''invalid format: tedit value must be a string'')
             | Some s \<Rightarrow> Inr (out\<lparr>Module.Tedit := s\<rparr>))
          else if kw = ''descr'' then
            (case String (Child n 1) of
               None \<Rightarrow> Inl (Err ''invalid format: tedit value must be a string'')
             | Some s \<Rightarrow> Inr (out\<lparr>Module.Description := s\<rparr>))
          else if kw = ''tags'' then
            forChildren (\<lambda>x out.
              case String (Child n 1) of
                None \<Rightarrow> Inl (Err ''invalid format: tag value must be a string'')
              | Some t \<Rightarrow> Inr (out\<lparr>Module.Tags := Module.Tags out @ [t]\<rparr>))
              n 1 out
          else if kw = ''attr'' then
            forChildren (\<lambda>x out.
              case String (Child n 1) of
                None \<Rightarrow> Inl (Err ''invalid format: tag value must be a string'')
              | Some t \<Rightarrow> Inr (out\<lparr>Module.Attrs := Module.Attrs out @ [t]\<rparr>))
              n 1 out
          else if kw = ''at'' then
            bind (xyArgs pf n) (\<lambda>p. Inr (out\<lparr>Module.Position := p\<rparr>))
          else if kw = ''clearance'' then
            bind (MustFloat64 pf (Child n 1)) (\<lambda>v. Inr (out\<lparr>Module.Clearance := v\<rparr>))
          else if kw = ''solder_mask_margin'' then
            bind (MustFloat64 pf (Child n 1)) (\<lambda>v. Inr (out\<lparr>Module.SolderMaskMargin := v\<rparr>))
          else if kw = ''solder_paste_margin'' then
            bind (MustFloat64 pf (Child n 1)) (\<lambda>v. Inr (out\<lparr>Module.SolderPasteMargin := v\<rparr>))
          else if kw = ''solder_paste_ratio'' then
            bind (MustFloat64 pf (Child n 1)) (\<lambda>v. Inr (out\<lparr>Module.SolderPasteRatio := v\<rparr>))
          else if kw = ''model'' then
            (case String (Child n 1) of
               None \<Rightarrow> Inl (Err ''invalid format: model value must be a string'')
             | Some s \<Rightarrow> Inr (out\<lparr>Module.Model := s\<rparr>))
          else if kw = ''fp_line'' then
            bind (unmarshalFpLine pf n) (\<lambda>line.
              Inr (out\<lparr>Module.Lines := Module.Lines out @ [line]\<rparr>))
          else if kw = ''fp_circle'' then
            bind (unmarshalFpCircle pf n) (\<lambda>c.
              Inr (out\<lparr>Module.Circles := Module.Circles out @ [c]\<rparr>))
          else if kw = ''fp_arc'' then
            bind (unmarshalFpArc pf n) (\<lambda>a.
              Inr (out\<lparr>Module.Arcs := Module.Arcs out @ [a]\<rparr>))
          else if kw = ''fp_poly'' then
            bind (unmarshalFpPoly pf n) (\<lambda>p.
              Inr (out\<lparr>Module.Polygons := Module.Polygons out @ [p]\<rparr>))
          else if kw = ''fp_text'' then
            bind (unmarshalFpText pf n) (\<lambda>txt.
              Inr (out\<lparr>Module.Texts := Module.Texts out @ [txt]\<rparr>))
          else if kw = ''pad'' then
            bind (unmarshalPad pf pint n) (\<lambda>pad.
              Inr (out\<lparr>Module.Pads := Module.Pads out @ [pad]\<rparr>))
          else Inl (Err (''cannot handle expression: '' @ kw)))
      else Inr out)"

text \<open>
  \<^verbatim>\<open>DecodeModule\<close>. The parser \<^verbatim>\<open>sexp.Parse\<close> is the parameter \<open>Parse\<close>: from the
  reader \<open>r\<close> it returns a node pointer (\<open>None\<close> is nil) and an error value (\<open>None\<close> is
  nil). The source binds the error to \<^verbatim>\<open>err\<close> and overwrites it before any read. A
  method called on a nil node pointer panics.
\<close>

definition DecodeModule ::
  "('r \<Rightarrow> node option \<times> 'e option) \<Rightarrow> (string \<Rightarrow> 'f option) \<Rightarrow> (string \<Rightarrow> int option)
     \<Rightarrow> 'r \<Rightarrow> error + ('f::zero) Module" where
  "DecodeModule Parse pf pint r =
     (case Parse r of (ast, err) \<Rightarrow>
        (case ast of
           None \<Rightarrow> Inl Panic
         | Some a \<Rightarrow>
             if \<not> NodeIsList a then
               Inl (Err ''invalid format: expected s-expression list at top level'')
             else if NumChildren a \<noteq> 1 then
               Inl (Err ''invalid format: top level list of size 1'')
             else
               (case Nth a 0 of
                  None \<Rightarrow> Inl Panic
                | Some mainAST \<Rightarrow>
                    if \<not> NodeIsList mainAST then
                      Inl (Err ''invalid format: expected s-expression list at 1st level'')
                    else if NumChildren mainAST < 3 then
                      Inl (Err ''invalid format: missing minimum elements'')
                    else
                      (case String (Child (Help mainAST) 0) of
                         None \<Rightarrow> Inl (Err ''invalid format: missing module prefix'')
                       | Some s \<Rightarrow>
                           if s \<noteq> ''module'' then
                             Inl (Err ''invalid format: missing module prefix'')
                           else
                             (case String (Child (Help mainAST) 1) of
                                None \<Rightarrow>
                                  Inl (Err ''invalid format: expected string value for module name'')
                              | Some name \<Rightarrow>
                                  forChildren
                                    (\<lambda>i out. moduleClause pf pint (Child (Help mainAST) i) out)
                                    (Help mainAST) 2
                                    (zeroModule\<lparr>Module.Name := name\<rparr>))))))"

text \<open>
  A parser for the number literals of the examples, to run the decoder on concrete
  documents: it stands in for the parameters \<open>pf\<close> and \<open>pint\<close>, and reads the decimal
  literals below as their values and nothing else.
\<close>

definition litFloat :: "string \<Rightarrow> real option" where
  "litFloat s =
     (if s = ''0'' then Some 0
      else if s = ''1'' then Some 1
      else if s = ''2'' then Some 2
      else if s = ''0.1'' then Some (1 / 10)
      else if s = ''0.2'' then Some (2 / 10)
      else if s = ''0.3'' then Some (3 / 10)
      else if s = ''0.5'' then Some (5 / 10)
      else if s = ''0.6'' then Some (6 / 10)
      else None)"

definition litInt :: "string \<Rightarrow> int option" where
  "litInt s =
     (if s = ''0'' then Some 0
      else if s = ''1'' then Some 1
      else if s = ''2'' then Some 2
      else None)"

text \<open>Scalars and lists, as the parser builds them.\<close>

abbreviation atom :: "string \<Rightarrow> node" where
  "atom s \<equiv> Node s []"

abbreviation lst :: "node list \<Rightarrow> node" where
  "lst cs \<equiv> Node [] cs"

text \<open>A parser that returns the tree \<open>n\<close> and no error, for the examples.\<close>

abbreviation parsed :: "node \<Rightarrow> unit \<Rightarrow> node option \<times> unit option" where
  "parsed n \<equiv> (\<lambda>u. (Some n, None))"


section \<open>Vocabulary of the statements\<close>

text \<open>The case labels of the switch of \<^verbatim>\<open>DecodeModule\<close>.\<close>

definition moduleKeywords :: "string list" where
  "moduleKeywords =
     [''zone_connect'', ''path'', ''autoplace_cost90'', ''autoplace_cost180'', ''layer'',
      ''tedit'', ''descr'', ''tags'', ''attr'', ''at'', ''clearance'', ''solder_mask_margin'',
      ''solder_paste_margin'', ''solder_paste_ratio'', ''model'', ''fp_line'', ''fp_circle'',
      ''fp_arc'', ''fp_poly'', ''fp_text'', ''pad'']"

text \<open>
  A child of \<^verbatim>\<open>pts\<close> that is a two-argument \<^verbatim>\<open>xy\<close> list whose arguments parse to the
  coordinates of \<open>pt\<close>.
\<close>

definition xyChild :: "(string \<Rightarrow> 'f option) \<Rightarrow> node \<Rightarrow> 'f Point2D \<Rightarrow> bool" where
  "xyChild pf c pt =
     (case Children c of
        [k, a, b] \<Rightarrow> k = atom ''xy'' \<and> Float64 pf (Some a) = Some (X pt)
          \<and> Float64 pf (Some b) = Some (Y pt)
      | _ \<Rightarrow> False)"

text \<open>
  The keyword of a clause: the literal of its first child, when the clause is a list and
  that child is a scalar.
\<close>

definition keyword :: "node \<Rightarrow> string option" where
  "keyword c = String (Child (Some c) 0)"

text \<open>
  One round of the loop of \<^verbatim>\<open>unmarshalFpPoly\<close>, named to state facts about the rounds.
\<close>

definition fpPolyChild ::
  "(string \<Rightarrow> 'f option) \<Rightarrow> helper \<Rightarrow> nat \<Rightarrow> 'f FpPoly \<Rightarrow> error + 'f FpPoly" where
  "fpPolyChild pf n x p =
     bind (MustString (Child (Child n x) 0)) (\<lambda>kw.
       if kw = ''at'' then
         bind (xyArgs pf (Child n x)) (\<lambda>pt. Inr (p\<lparr>FpPoly.At := pt\<rparr>))
       else if kw = ''pts'' then
         forChildren (ptsItem pf (Child n x)) (Child n x) 1 p
       else if kw = ''layer'' then
         bind (MustString (Child (Child n x) 1)) (\<lambda>s. Inr (p\<lparr>FpPoly.Layer := s\<rparr>))
       else if kw = ''width'' then
         bind (MustFloat64 pf (Child (Child n x) 1)) (\<lambda>w. Inr (p\<lparr>FpPoly.Width := w\<rparr>))
       else Inr p)"

text \<open>
  A sub-clause of \<^verbatim>\<open>fp_poly\<close> other than \<^verbatim>\<open>pts\<close> that the extractor reads without
  failing: a list led by a scalar keyword, with numeric coordinates after \<^verbatim>\<open>at\<close>, a
  scalar after \<^verbatim>\<open>layer\<close>, a number after \<^verbatim>\<open>width\<close>, and anything after another keyword.
\<close>

definition polySubClauseOk :: "(string \<Rightarrow> 'f option) \<Rightarrow> node \<Rightarrow> bool" where
  "polySubClauseOk pf c =
     (case keyword c of
        None \<Rightarrow> False
      | Some kw \<Rightarrow>
          if kw = ''at'' then
            Float64 pf (Child (Some c) 1) \<noteq> None \<and> Float64 pf (Child (Some c) 2) \<noteq> None
          else if kw = ''pts'' then False
          else if kw = ''layer'' then String (Child (Some c) 1) \<noteq> None
          else if kw = ''width'' then Float64 pf (Child (Some c) 1) \<noteq> None
          else True)"


section \<open>Basic facts\<close>

lemma bind_Inl [simp]: "bind (Inl e) f = Inl e"
  by (simp add: bind_def)

lemma bind_Inr [simp]: "bind (Inr v) f = f v"
  by (simp add: bind_def)

lemma bind_weak_cong: "m = m' \<Longrightarrow> bind m f = bind m' f"
  by simp

lemma bind_eq_Inr: "bind m f = Inr b \<longleftrightarrow> (\<exists>a. m = Inr a \<and> f a = Inr b)"
  by (cases m) simp_all

lemmas sexp_defs = Help_def NumChildren_def NodeIsList_def Nth_def Child_def IsValid_def
  IsList_def IsScalar_def MustNode_def String_def Float64_def Int_h_def MustString_def
  MustFloat64_def

lemma forChildren_Some:
  "forChildren body (Some nd) x a =
     (if x < length (Children nd)
      then bind (body x a) (\<lambda>a'. forChildren body (Some nd) (Suc x) a')
      else Inr a)"
  by (subst forChildren.simps)
    (simp add: MustNode_def NumChildren_def bind_def cong: sum.case_cong)

lemma forChildren_None: "forChildren body None x a = Inl Panic"
  by (subst forChildren.simps) (simp add: MustNode_def)

lemma forChildren_done:
  "length (Children nd) \<le> x \<Longrightarrow> forChildren body (Some nd) x a = Inr a"
  by (subst forChildren_Some) simp

text \<open>Only the rounds from \<open>x\<close> on matter.\<close>

lemma forChildren_cong_body:
  assumes "\<And>i b. x \<le> i \<Longrightarrow> i < length (Children nd) \<Longrightarrow> body i b = body' i b"
  shows "forChildren body (Some nd) x a = forChildren body' (Some nd) x a"
  using assms
proof (induction "length (Children nd) - x" arbitrary: x a)
  case 0
  then show ?case by (simp add: forChildren_done)
next
  case (Suc k)
  then have lt: "x < length (Children nd)" by simp
  have step: "body x a = body' x a" using Suc.prems lt by simp
  have rest: "forChildren body (Some nd) (Suc x) b = forChildren body' (Some nd) (Suc x) b" for b
    using Suc.hyps(1) [of "Suc x" b] Suc.hyps(2) Suc.prems by simp
  have rest': "forChildren body (Some nd) (Suc x) = forChildren body' (Some nd) (Suc x)"
    by (rule ext) (rule rest)
  show ?case
    by (simp add: forChildren_Some [of body nd x a] forChildren_Some [of body' nd x a]
        lt step rest')
qed

text \<open>A property kept by every round is kept by the loop.\<close>

lemma forChildren_invariant:
  assumes "forChildren body (Some nd) x a = Inr a'" and "P a"
    and "\<And>i b b'. x \<le> i \<Longrightarrow> i < length (Children nd) \<Longrightarrow> P b \<Longrightarrow> body i b = Inr b' \<Longrightarrow> P b'"
  shows "P a'"
  using assms
proof (induction "length (Children nd) - x" arbitrary: x a)
  case 0
  then show ?case by (simp add: forChildren_done)
next
  case (Suc k)
  then have lt: "x < length (Children nd)" by simp
  from Suc.prems(1) obtain b where b: "body x a = Inr b"
    and rest: "forChildren body (Some nd) (Suc x) b = Inr a'"
    by (subst (asm) forChildren_Some) (auto simp: lt bind_eq_Inr)
  have pb: "P b" using Suc.prems(3) [of x a b] lt Suc.prems(2) b by simp
  have k: "k = length (Children nd) - Suc x" using Suc.hyps(2) by simp
  show ?case
  proof (rule Suc.hyps(1) [OF k rest pb])
    fix i c c'
    assume "Suc x \<le> i" "i < length (Children nd)" "P c" "body i c = Inr c'"
    then show "P c'" using Suc.prems(3) [of i c c'] by simp
  qed
qed

text \<open>A round that fails from every state makes the loop fail, wherever it starts
  before that round.\<close>

lemma forChildren_fails:
  assumes "\<And>b. \<exists>e. body i b = Inl e" and "x \<le> i" and "i < length (Children nd)"
  shows "\<exists>e. forChildren body (Some nd) x a = Inl e"
  using assms(2)
proof (induction "i - x" arbitrary: x a)
  case 0
  then have "x = i" by simp
  then show ?case
    using assms(1) [of a] assms(3) by (subst forChildren_Some) auto
next
  case (Suc k)
  then have lt: "x < length (Children nd)" using assms(3) by simp
  show ?case
  proof (cases "body x a")
    case (Inl e)
    then show ?thesis by (subst forChildren_Some) (simp add: lt)
  next
    case (Inr b)
    have "\<exists>e. forChildren body (Some nd) (Suc x) b = Inl e"
      using Suc.hyps(1) [of "Suc x" b] Suc.hyps(2) Suc.prems by simp
    then show ?thesis by (subst forChildren_Some) (simp add: lt Inr)
  qed
qed

text \<open>When the rounds before \<open>i\<close> succeed from every state, the loop reaches round \<open>i\<close>.\<close>

lemma forChildren_reaches:
  assumes "\<And>b. body i b = Inl e" and "x \<le> i" and "i < length (Children nd)"
    and "\<And>j b. x \<le> j \<Longrightarrow> j < i \<Longrightarrow> \<exists>b'. body j b = Inr b'"
  shows "forChildren body (Some nd) x a = Inl e"
  using assms(2,4)
proof (induction "i - x" arbitrary: x a)
  case 0
  then have "x = i" by simp
  then show ?case
    using assms(1) [of a] assms(3) by (subst forChildren_Some) auto
next
  case (Suc k)
  then have lt: "x < length (Children nd)" and xi: "x < i" using assms(3) by simp_all
  obtain b where b: "body x a = Inr b" using Suc.prems(2) [of x a] xi by auto
  have "forChildren body (Some nd) (Suc x) b = Inl e"
    using Suc.hyps(1) [of "Suc x" b] Suc.hyps(2) Suc.prems by simp
  then show ?case by (subst forChildren_Some) (simp add: lt b)
qed


text \<open>A loop that succeeds reaches every round, with whatever the rounds before keep.\<close>

lemma forChildren_split_at:
  assumes "forChildren body (Some nd) x a = Inr a'" and "x \<le> k" and "k < length (Children nd)"
    and "P a"
    and "\<And>i b b'. x \<le> i \<Longrightarrow> i < k \<Longrightarrow> P b \<Longrightarrow> body i b = Inr b' \<Longrightarrow> P b'"
  shows "\<exists>b c. P b \<and> body k b = Inr c \<and> forChildren body (Some nd) (Suc k) c = Inr a'"
  using assms(1,2,4,5)
proof (induction "k - x" arbitrary: x a)
  case 0
  then have xk: "x = k" by simp
  from 0(2) obtain c where "body k a = Inr c" "forChildren body (Some nd) (Suc k) c = Inr a'"
    unfolding xk using assms(3)
    by (subst (asm) forChildren_Some) (auto simp: bind_eq_Inr)
  then show ?case using 0(4) by blast
next
  case (Suc n)
  then have xk: "x < k" by simp
  then have lt: "x < length (Children nd)" using assms(3) by simp
  from Suc.prems(1) obtain b1 where b1: "body x a = Inr b1"
    and rest: "forChildren body (Some nd) (Suc x) b1 = Inr a'"
    by (subst (asm) forChildren_Some) (auto simp: lt bind_eq_Inr)
  have pb1: "P b1" using Suc.prems(4) [of x a b1] xk Suc.prems(3) b1 by simp
  have n: "n = k - Suc x" using Suc.hyps(2) by simp
  show ?case
  proof (rule Suc.hyps(1) [OF n rest _ pb1])
    show "Suc x \<le> k" using xk by simp
    fix i b b'
    assume "Suc x \<le> i" "i < k" "P b" "body i b = Inr b'"
    then show "P b'" using Suc.prems(4) [of i b b'] by simp
  qed
qed

text \<open>Rounds that succeed and keep a property make the loop succeed and keep it.\<close>

lemma forChildren_succeeds:
  assumes "P a"
    and "\<And>i b. x \<le> i \<Longrightarrow> i < length (Children nd) \<Longrightarrow> P b \<Longrightarrow> \<exists>b'. body i b = Inr b' \<and> P b'"
  shows "\<exists>a'. forChildren body (Some nd) x a = Inr a' \<and> P a'"
  using assms
proof (induction "length (Children nd) - x" arbitrary: x a)
  case 0
  then show ?case by (simp add: forChildren_done)
next
  case (Suc n)
  then have lt: "x < length (Children nd)" by simp
  obtain b where b: "body x a = Inr b" "P b" using Suc.prems(2) [of x a] lt Suc.prems(1) by auto
  have n: "n = length (Children nd) - Suc x" using Suc.hyps(2) by simp
  have "\<exists>a'. forChildren body (Some nd) (Suc x) b = Inr a' \<and> P a'"
  proof (rule Suc.hyps(1) [OF n b(2)])
    fix i c
    assume "Suc x \<le> i" "i < length (Children nd)" "P c"
    then show "\<exists>b'. body i c = Inr b' \<and> P b'" using Suc.prems(2) [of i c] by simp
  qed
  then show ?case by (subst forChildren_Some) (simp add: lt b)
qed

text \<open>The rounds over a front part of the children are the loop over that part alone.\<close>

lemma forChildren_front:
  assumes "x \<le> length front"
  shows "forChildren body (Some (Node w (front @ back))) x a =
    bind (forChildren body (Some (Node w front)) x a)
      (\<lambda>b. forChildren body (Some (Node w (front @ back))) (length front) b)"
  using assms
proof (induction "length front - x" arbitrary: x a)
  case 0
  then have "x = length front" by simp
  then show ?case by (simp add: forChildren_done)
next
  case (Suc n)
  then have lt: "x < length front" by simp
  have n: "n = length front - Suc x" using Suc.hyps(2) by simp
  have rest: "forChildren body (Some (Node w (front @ back))) (Suc x) c =
      bind (forChildren body (Some (Node w front)) (Suc x) c)
        (\<lambda>b. forChildren body (Some (Node w (front @ back))) (length front) b)" for c
    using Suc.hyps(1) [OF n, of c] lt by simp
  show ?case
  proof (cases "body x a")
    case (Inl e)
    then show ?thesis
      using lt
      by (simp add: forChildren_Some [of body "Node w (front @ back)" x a]
          forChildren_Some [of body "Node w front" x a])
  next
    case (Inr c)
    then show ?thesis
      using lt rest [of c]
      by (simp add: forChildren_Some [of body "Node w (front @ back)" x a]
          forChildren_Some [of body "Node w front" x a])
  qed
qed


section \<open>The minimal document\<close>

text \<open>
  C1. The minimal document \<^verbatim>\<open>(module "M" (layer F.Cu))\<close>, which the parser hands over
  as a root list holding the one module list, decodes to a module named \<open>M\<close> on layer
  \<open>F.Cu\<close>, every other field at its zero value and every collection empty.
\<close>

theorem C1_minimal_document:
  assumes "Parse r =
    (Some (lst [lst [atom ''module'', atom ''M'', lst [atom ''layer'', atom ''F.Cu'']]]), e)"
  shows "DecodeModule Parse pf pint r =
    Inr \<lparr>Module.Name = ''M'', Module.Tedit = [], Module.Description = [],
      Module.Layer = ''F.Cu'', Module.Position = \<lparr>X = 0, Y = 0\<rparr>, Module.Clearance = 0,
      Module.Model = [], Module.SolderMaskMargin = 0, Module.SolderPasteMargin = 0,
      Module.SolderPasteRatio = 0, Module.Tags = [], Module.Attrs = [], Module.Lines = [],
      Module.Arcs = [], Module.Circles = [], Module.Polygons = [], Module.Texts = [],
      Module.Pads = []\<rparr>"
  using assms
  by (simp add: DecodeModule_def sexp_defs forChildren_Some moduleClause_def zeroModule_def
      zeroPoint_def cong: bind_weak_cong)

theorem C1_minimal_document_witness:
  "DecodeModule
     (\<lambda>u :: unit. (Some (lst [lst [atom ''module'', atom ''M'',
        lst [atom ''layer'', atom ''F.Cu'']]]), None :: unit option))
     litFloat litInt () =
    Inr \<lparr>Module.Name = ''M'', Module.Tedit = [], Module.Description = [],
      Module.Layer = ''F.Cu'', Module.Position = \<lparr>X = 0, Y = 0 :: real\<rparr>, Module.Clearance = 0,
      Module.Model = [], Module.SolderMaskMargin = 0, Module.SolderPasteMargin = 0,
      Module.SolderPasteRatio = 0, Module.Tags = [], Module.Attrs = [], Module.Lines = [],
      Module.Arcs = [], Module.Circles = [], Module.Polygons = [], Module.Texts = [],
      Module.Pads = []\<rparr>"
  by (rule C1_minimal_document) simp

section \<open>Tag and attribute lists\<close>

text \<open>The loop of the \<^verbatim>\<open>tags\<close> and \<^verbatim>\<open>attr\<close> cases reads child 1 at every round.\<close>

lemma same_child_loop:
  assumes "String (Child (Some nd) 1) = Some t"
  shows "forChildren (\<lambda>x out. case String (Child (Some nd) 1) of
            None \<Rightarrow> Inl err | Some t \<Rightarrow> Inr (upd t out)) (Some nd) x out =
         Inr (((upd t) ^^ (length (Children nd) - x)) out)"
proof (induction "length (Children nd) - x" arbitrary: x out)
  case 0
  then show ?case by (simp add: forChildren_done)
next
  case (Suc k)
  then have lt: "x < length (Children nd)" by simp
  have k: "k = length (Children nd) - Suc x" using Suc.hyps(2) by simp
  have "length (Children nd) - x = Suc (length (Children nd) - Suc x)" using lt by simp
  then show ?case
    using Suc.hyps(1) [OF k, of "upd t out"] assms
    by (subst forChildren_Some) (simp add: lt funpow_swap1)
qed

lemma tags_funpow:
  "((\<lambda>out. out\<lparr>Module.Tags := Module.Tags out @ [t]\<rparr>) ^^ k) out =
     out\<lparr>Module.Tags := Module.Tags out @ replicate k t\<rparr>"
  by (induction k arbitrary: out) (simp_all add: funpow_swap1 replicate_app_Cons_same)

lemma attrs_funpow:
  "((\<lambda>out. out\<lparr>Module.Attrs := Module.Attrs out @ [t]\<rparr>) ^^ k) out =
     out\<lparr>Module.Attrs := Module.Attrs out @ replicate k t\<rparr>"
  by (induction k arbitrary: out) (simp_all add: funpow_swap1 replicate_app_Cons_same)

text \<open>
  C2. A \<^verbatim>\<open>tags\<close> clause \<^verbatim>\<open>(tags c c1 ... ck)\<close> whose first argument coerces to the
  string \<open>t\<close> appends \<open>t\<close> once for every argument, so \<open>k + 1\<close> copies of \<open>t\<close>: the
  arguments after the first are counted and never read. The \<^verbatim>\<open>attr\<close> clause does the
  same to the attribute list. The collection is the list of the arguments only for a
  clause of one argument (or of equal arguments).
\<close>

theorem C2_tags_repeat_first_child:
  assumes "String (Some c) = Some t"
  shows "moduleClause pf pint (Some (Node u (atom ''tags'' # c # cs))) out =
           Inr (out\<lparr>Module.Tags := Module.Tags out @ replicate (Suc (length cs)) t\<rparr>)
       \<and> moduleClause pf pint (Some (Node u (atom ''attr'' # c # cs))) out =
           Inr (out\<lparr>Module.Attrs := Module.Attrs out @ replicate (Suc (length cs)) t\<rparr>)"
proof -
  have c1: "String (Child (Some (Node u (kw # c # cs))) 1) = Some t" for kw
    using assms by (simp add: Child_def Nth_def)
  have tags: "moduleClause pf pint (Some (Node u (atom ''tags'' # c # cs))) out =
           Inr (out\<lparr>Module.Tags := Module.Tags out @ replicate (Suc (length cs)) t\<rparr>)"
    using c1 [of "atom ''tags''"]
      same_child_loop [OF c1, where kw1 = "atom ''tags''" and x = 1 and out = out
        and upd = "\<lambda>t out. out\<lparr>Module.Tags := Module.Tags out @ [t]\<rparr>"]
    by (simp add: moduleClause_def IsList_def IsValid_def NodeIsList_def Child_def Nth_def
        MustString_def String_def tags_funpow replicate_append_same)
  have attrs: "moduleClause pf pint (Some (Node u (atom ''attr'' # c # cs))) out =
           Inr (out\<lparr>Module.Attrs := Module.Attrs out @ replicate (Suc (length cs)) t\<rparr>)"
    using c1 [of "atom ''attr''"]
      same_child_loop [OF c1, where kw1 = "atom ''attr''" and x = 1 and out = out
        and upd = "\<lambda>t out. out\<lparr>Module.Attrs := Module.Attrs out @ [t]\<rparr>"]
    by (simp add: moduleClause_def IsList_def IsValid_def NodeIsList_def Child_def Nth_def
        MustString_def String_def attrs_funpow replicate_append_same)
  show ?thesis using tags attrs by simp
qed

theorem C2_tags_repeat_first_child_witness:
  "moduleClause litFloat litInt (Some (lst [atom ''tags'', atom ''a'', atom ''b''])) 
      (zeroModule :: real Module) =
     Inr (zeroModule\<lparr>Module.Tags := [''a'', ''a'']\<rparr>)
   \<and> moduleClause litFloat litInt (Some (lst [atom ''attr'', atom ''a'', atom ''b'']))
      (zeroModule :: real Module) =
     Inr (zeroModule\<lparr>Module.Attrs := [''a'', ''a'']\<rparr>)"
  using C2_tags_repeat_first_child [of "atom ''a''" "''a''" litFloat litInt "[]" "[atom ''b'']" zeroModule]
  by (simp add: String_def NodeIsList_def zeroModule_def)


text \<open>The same on a whole document.\<close>

lemma tags_document_example:
  "DecodeModule (parsed (lst [lst [atom ''module'', atom ''M'',
      lst [atom ''tags'', atom ''a'', atom ''b'']]])) litFloat litInt () =
    Inr \<lparr>Module.Name = ''M'', Module.Tedit = [], Module.Description = [],
      Module.Layer = [], Module.Position = \<lparr>X = 0, Y = 0 :: real\<rparr>, Module.Clearance = 0,
      Module.Model = [], Module.SolderMaskMargin = 0, Module.SolderPasteMargin = 0,
      Module.SolderPasteRatio = 0, Module.Tags = [''a'', ''a''], Module.Attrs = [],
      Module.Lines = [], Module.Arcs = [], Module.Circles = [], Module.Polygons = [],
      Module.Texts = [], Module.Pads = []\<rparr>"
  by (simp add: DecodeModule_def sexp_defs forChildren_Some moduleClause_def zeroModule_def
      zeroPoint_def cong: bind_weak_cong)

section \<open>Drill clauses\<close>

lemma drillLoop_Some:
  "drillLoop pf (Some nd) x d =
     (if x < length (Children nd) then
        if IsList (Child (Some nd) x) then
          bind (MustString (Child (Child (Some nd) x) 0)) (\<lambda>kw.
            if kw = ''offset'' then
              bind (xyArgs pf (Child (Some nd) x)) (\<lambda>p.
                drillLoop pf (Some nd) (x + 1) (d\<lparr>Drill.Offset := p\<rparr>))
            else drillLoop pf (Some nd) (x + 1) d)
        else
          (case Float64 pf (Child (Some nd) x) of
             None \<Rightarrow>
               bind (MustString (Child (Some nd) x)) (\<lambda>k.
               bind (MustFloat64 pf (Child (Some nd) (x + 1))) (\<lambda>ex.
               bind (MustFloat64 pf (Child (Some nd) (x + 2))) (\<lambda>ey.
                 Inr (d\<lparr>Drill.Kind := k, Drill.Ellipse := \<lparr>X = ex, Y = ey\<rparr>\<rparr>))))
           | Some _ \<Rightarrow>
               bind (MustFloat64 pf (Child (Some nd) 1)) (\<lambda>r.
                 drillLoop pf (Some nd) (x + 1) (d\<lparr>Drill.Scalar := r\<rparr>)))
      else Inr d)"
  by (subst drillLoop.simps)
    (simp add: MustNode_def NumChildren_def bind_def
      cong: if_cong sum.case_cong option.case_cong)

text \<open>
  C3. A drill clause of one numeric child \<open>s\<close> has an empty kind and the radius read from
  \<open>s\<close>. A drill clause whose first child \<open>k\<close> is a scalar that is not a number has kind \<open>k\<close>
  and the ellipse read from the two children after \<open>k\<close>; the decoder returns there, so
  whatever follows the ellipse (the list \<open>rest\<close>, an \<^verbatim>\<open>offset\<close> clause included) is
  never read and the offset stays zero.
\<close>

theorem C3_drill_kind_branch_returns:
  assumes "pf s = Some r" and "pf k = None" and "pf a = Some ex" and "pf b = Some ey"
  shows "decodeDrill pf (Some (Node u [h, atom s])) =
           Inr \<lparr>Drill.Kind = [], Drill.Scalar = r, Drill.Ellipse = \<lparr>X = 0, Y = 0\<rparr>,
             Drill.Offset = \<lparr>X = 0, Y = 0\<rparr>\<rparr>
       \<and> decodeDrill pf (Some (Node u (h # atom k # atom a # atom b # rest))) =
           Inr \<lparr>Drill.Kind = k, Drill.Scalar = 0, Drill.Ellipse = \<lparr>X = ex, Y = ey\<rparr>,
             Drill.Offset = \<lparr>X = 0, Y = 0\<rparr>\<rparr>"
  using assms
  by (simp add: decodeDrill_def drillLoop_Some sexp_defs zeroDrill_def zeroPoint_def
      cong: bind_weak_cong)

theorem C3_drill_kind_branch_returns_witness:
  "decodeDrill litFloat (Some (lst [atom ''drill'', atom ''0.5''])) =
           Inr \<lparr>Drill.Kind = [], Drill.Scalar = 5 / 10, Drill.Ellipse = \<lparr>X = 0, Y = 0\<rparr>,
             Drill.Offset = \<lparr>X = 0, Y = 0\<rparr>\<rparr>
   \<and> decodeDrill litFloat (Some (lst [atom ''drill'', atom ''oval'', atom ''0.6'', atom ''0.3'',
        lst [atom ''offset'', atom ''0.1'', atom ''0.2'']])) =
           Inr \<lparr>Drill.Kind = ''oval'', Drill.Scalar = 0,
             Drill.Ellipse = \<lparr>X = 6 / 10, Y = 3 / 10\<rparr>, Drill.Offset = \<lparr>X = 0, Y = 0\<rparr>\<rparr>"
  using C3_drill_kind_branch_returns [of litFloat "''0.5''" "5 / 10" "''oval''" "''0.6''" "6 / 10"
      "''0.3''" "3 / 10" "[]" "atom ''drill''" "[lst [atom ''offset'', atom ''0.1'', atom ''0.2'']]"]
  by (simp add: litFloat_def)

text \<open>
  Next to a radius the place of the \<^verbatim>\<open>offset\<close> clause matters too: after the radius it is
  read, before the radius the radius is read from child 1, which is the offset list, and
  the decoder panics.
\<close>

lemma drill_offset_before_radius_panics:
  "decodeDrill litFloat
     (Some (lst [atom ''drill'', lst [atom ''offset'', atom ''0.1'', atom ''0.2''], atom ''0.5''])) =
   Inl Panic"
  by (simp add: decodeDrill_def drillLoop_Some sexp_defs xyArgs_def litFloat_def
      cong: bind_weak_cong)

lemma drill_offset_after_radius:
  "decodeDrill litFloat
     (Some (lst [atom ''drill'', atom ''0.5'', lst [atom ''offset'', atom ''0.1'', atom ''0.2'']])) =
   Inr \<lparr>Drill.Kind = [], Drill.Scalar = 5 / 10, Drill.Ellipse = \<lparr>X = 0, Y = 0\<rparr>,
             Drill.Offset = \<lparr>X = 1 / 10, Y = 2 / 10\<rparr>\<rparr>"
  by (simp add: decodeDrill_def drillLoop_Some sexp_defs xyArgs_def litFloat_def zeroDrill_def
      zeroPoint_def cong: bind_weak_cong)

text \<open>Rounds over numeric scalars and lists leave the kind and the ellipse alone.\<close>

lemma drillLoop_numeric:
  assumes "drillLoop pf (Some (Node u cs)) x d = Inr d'"
    and "\<And>j. x \<le> j \<Longrightarrow> j < length cs \<Longrightarrow> \<not> NodeIsList (cs ! j) \<Longrightarrow> pf (node.Value (cs ! j)) \<noteq> None"
  shows "Drill.Kind d' = Drill.Kind d \<and> Drill.Ellipse d' = Drill.Ellipse d"
  using assms
proof (induction "length cs - x" arbitrary: x d)
  case 0
  then show ?case by (simp add: drillLoop_Some)
next
  case (Suc n)
  then have lt: "x < length cs" by simp
  have n: "n = length cs - Suc x" using Suc.hyps(2) by simp
  have later: "\<And>j. Suc x \<le> j \<Longrightarrow> j < length cs \<Longrightarrow> \<not> NodeIsList (cs ! j) \<Longrightarrow>
      pf (node.Value (cs ! j)) \<noteq> None"
    using Suc.prems(2) by simp
  show ?case
  proof (cases "NodeIsList (cs ! x)")
    case True
    with Suc.prems(1) lt obtain d1 where "drillLoop pf (Some (Node u cs)) (Suc x) d1 = Inr d'"
      and "Drill.Kind d1 = Drill.Kind d" "Drill.Ellipse d1 = Drill.Ellipse d"
      by (subst (asm) drillLoop_Some)
        (auto simp: IsList_def Child_def Nth_def bind_eq_Inr split: if_splits)
    then show ?thesis using Suc.hyps(1) [OF n _ later, of d1] by simp
  next
    case False
    then obtain v where v: "pf (node.Value (cs ! x)) = Some v"
      using Suc.prems(2) [of x] lt by auto
    with False Suc.prems(1) lt obtain d1 where "drillLoop pf (Some (Node u cs)) (Suc x) d1 = Inr d'"
      and "Drill.Kind d1 = Drill.Kind d" "Drill.Ellipse d1 = Drill.Ellipse d"
      by (subst (asm) drillLoop_Some)
        (auto simp: IsList_def Child_def Nth_def Float64_def bind_eq_Inr split: if_splits)
    then show ?thesis using Suc.hyps(1) [OF n _ later, of d1] by simp
  qed
qed

text \<open>When the first scalar from \<open>x\<close> on is not numeric, the radius is left alone.\<close>

lemma drillLoop_kind_first:
  assumes "drillLoop pf (Some (Node u cs)) x d = Inr d'"
    and "x \<le> j" and "j < length cs \<longrightarrow> \<not> NodeIsList (cs ! j) \<and> pf (node.Value (cs ! j)) = None"
    and "\<And>i. x \<le> i \<Longrightarrow> i < j \<Longrightarrow> i < length cs \<Longrightarrow> NodeIsList (cs ! i)"
  shows "Drill.Scalar d' = Drill.Scalar d"
  using assms
proof (induction "j - x" arbitrary: x d)
  case 0
  then have xj: "x = j" by simp
  show ?case
  proof (cases "j < length cs")
    case True
    with 0 xj show ?thesis
      by (subst (asm) drillLoop_Some)
        (auto simp: IsList_def Child_def Nth_def Float64_def bind_eq_Inr split: if_splits)
  next
    case False
    with 0 xj show ?thesis by (simp add: drillLoop_Some)
  qed
next
  case (Suc n)
  then have xj: "x < j" by simp
  have n: "n = j - Suc x" using Suc.hyps(2) by simp
  show ?case
  proof (cases "x < length cs")
    case True
    then have "NodeIsList (cs ! x)" using Suc.prems(4) [of x] xj by simp
    with Suc.prems(1) True obtain d1 where "drillLoop pf (Some (Node u cs)) (Suc x) d1 = Inr d'"
      and "Drill.Scalar d1 = Drill.Scalar d"
      by (subst (asm) drillLoop_Some)
        (auto simp: IsList_def Child_def Nth_def bind_eq_Inr split: if_splits)
    then show ?thesis
      using Suc.hyps(1) [OF n, of d1] xj Suc.prems(3,4) by simp
  next
    case False
    with Suc.prems(1) show ?thesis by (simp add: drillLoop_Some)
  qed
qed


text \<open>
  C4, as stated, fails: a numeric scalar followed by a scalar that is not numeric fills
  both the radius and the ellipse, and the decode succeeds.
\<close>

theorem C4_drill_both_geometries_counterexample:
  "decodeDrill litFloat
     (Some (lst [atom ''drill'', atom ''0.5'', atom ''oval'', atom ''0.6'', atom ''0.3''])) =
     Inr \<lparr>Drill.Kind = ''oval'', Drill.Scalar = 5 / 10,
       Drill.Ellipse = \<lparr>X = 6 / 10, Y = 3 / 10\<rparr>, Drill.Offset = \<lparr>X = 0, Y = 0\<rparr>\<rparr>
   \<and> (5 / 10 :: real) \<noteq> 0 \<and> \<lparr>X = 6 / 10, Y = 3 / 10 :: real\<rparr> \<noteq> zeroPoint"
  by (simp add: decodeDrill_def drillLoop_Some sexp_defs litFloat_def zeroDrill_def
      zeroPoint_def cong: bind_weak_cong)

text \<open>
  C4, amended. For a drill clause that decodes without error and in which no numeric
  scalar child comes before a scalar child that is not numeric, at most one of the radius
  and the ellipse differs from its zero value: either the kind is empty and the ellipse is
  zero, or the radius is zero.
\<close>

theorem C4_drill_one_geometry:
  assumes dec: "decodeDrill pf (Some (Node u cs)) = Inr d"
    and order: "\<forall>i j. 1 \<le> i \<and> i < j \<and> j < length cs
        \<and> \<not> NodeIsList (cs ! i) \<and> pf (node.Value (cs ! i)) \<noteq> None
        \<and> \<not> NodeIsList (cs ! j) \<longrightarrow> pf (node.Value (cs ! j)) \<noteq> None"
  shows "(Drill.Kind d = [] \<and> Drill.Ellipse d = zeroPoint) \<or> Drill.Scalar d = 0"
proof (cases "\<exists>j. 1 \<le> j \<and> j < length cs \<and> \<not> NodeIsList (cs ! j) \<and> pf (node.Value (cs ! j)) = None")
  case False
  then have "\<And>j. 1 \<le> j \<Longrightarrow> j < length cs \<Longrightarrow> \<not> NodeIsList (cs ! j) \<Longrightarrow>
      pf (node.Value (cs ! j)) \<noteq> None"
    by auto
  from drillLoop_numeric [OF dec [unfolded decodeDrill_def] this]
  show ?thesis by (simp add: zeroDrill_def)
next
  case True
  define Q where "Q j \<longleftrightarrow> 1 \<le> j \<and> j < length cs \<and> \<not> NodeIsList (cs ! j)
      \<and> pf (node.Value (cs ! j)) = None" for j
  from True have "\<exists>j. Q j" by (simp add: Q_def)
  then obtain j where j: "Q j" and least: "\<And>i. i < j \<Longrightarrow> \<not> Q i"
    using exists_least_iff [of Q] by blast
  have lists: "NodeIsList (cs ! i)" if "1 \<le> i" "i < j" "i < length cs" for i
  proof (rule ccontr)
    assume scalar: "\<not> NodeIsList (cs ! i)"
    have "pf (node.Value (cs ! i)) \<noteq> None"
      using least [OF that(2)] that scalar by (auto simp: Q_def)
    then have "pf (node.Value (cs ! j)) \<noteq> None"
      using order [rule_format, of i j] that scalar j by (simp add: Q_def)
    then show False using j by (simp add: Q_def)
  qed
  have "Drill.Scalar d = Drill.Scalar (zeroDrill :: 'a Drill)"
  proof (rule drillLoop_kind_first [OF dec [unfolded decodeDrill_def]])
    show "1 \<le> j" using j by (simp add: Q_def)
    show "j < length cs \<longrightarrow> \<not> NodeIsList (cs ! j) \<and> pf (node.Value (cs ! j)) = None"
      using j by (simp add: Q_def)
    show "\<And>i. 1 \<le> i \<Longrightarrow> i < j \<Longrightarrow> i < length cs \<Longrightarrow> NodeIsList (cs ! i)"
      using lists by simp
  qed
  then show ?thesis by (simp add: zeroDrill_def)
qed

theorem C4_drill_one_geometry_witness:
  "decodeDrill litFloat (Some (lst [atom ''drill'',
      lst [atom ''offset'', atom ''0.1'', atom ''0.2''], atom ''oval'', atom ''0.6'',
      atom ''0.3''])) =
     Inr \<lparr>Drill.Kind = ''oval'', Drill.Scalar = 0 :: real,
       Drill.Ellipse = \<lparr>X = 6 / 10, Y = 3 / 10\<rparr>, Drill.Offset = \<lparr>X = 1 / 10, Y = 2 / 10\<rparr>\<rparr>
   \<and> ((Drill.Kind \<lparr>Drill.Kind = ''oval'', Drill.Scalar = 0 :: real,
       Drill.Ellipse = \<lparr>X = 6 / 10, Y = 3 / 10\<rparr>, Drill.Offset = \<lparr>X = 1 / 10, Y = 2 / 10\<rparr>\<rparr> = []
     \<and> Drill.Ellipse \<lparr>Drill.Kind = ''oval'', Drill.Scalar = 0 :: real,
       Drill.Ellipse = \<lparr>X = 6 / 10, Y = 3 / 10\<rparr>, Drill.Offset = \<lparr>X = 1 / 10, Y = 2 / 10\<rparr>\<rparr> =
       zeroPoint)
     \<or> Drill.Scalar \<lparr>Drill.Kind = ''oval'', Drill.Scalar = 0 :: real,
       Drill.Ellipse = \<lparr>X = 6 / 10, Y = 3 / 10\<rparr>, Drill.Offset = \<lparr>X = 1 / 10, Y = 2 / 10\<rparr>\<rparr> = 0)"
proof -
  let ?cs = "[atom ''drill'', lst [atom ''offset'', atom ''0.1'', atom ''0.2''], atom ''oval'',
    atom ''0.6'', atom ''0.3'']"
  let ?d = "\<lparr>Drill.Kind = ''oval'', Drill.Scalar = 0 :: real,
    Drill.Ellipse = \<lparr>X = 6 / 10, Y = 3 / 10\<rparr>, Drill.Offset = \<lparr>X = 1 / 10, Y = 2 / 10\<rparr>\<rparr>"
  have dec: "decodeDrill litFloat (Some (lst ?cs)) = Inr ?d"
    by (simp add: decodeDrill_def drillLoop_Some sexp_defs litFloat_def zeroDrill_def
        zeroPoint_def xyArgs_def cong: bind_weak_cong)
  have ord: "\<forall>i j. 1 \<le> i \<and> i < j \<and> j < length ?cs
      \<and> \<not> NodeIsList (?cs ! i) \<and> litFloat (node.Value (?cs ! i)) \<noteq> None
      \<and> \<not> NodeIsList (?cs ! j) \<longrightarrow> litFloat (node.Value (?cs ! j)) \<noteq> None"
  proof (intro allI impI)
    fix i j :: nat
    assume a: "1 \<le> i \<and> i < j \<and> j < length ?cs
      \<and> \<not> NodeIsList (?cs ! i) \<and> litFloat (node.Value (?cs ! i)) \<noteq> None
      \<and> \<not> NodeIsList (?cs ! j)"
    then have "j \<in> {2, 3, 4}" "i \<in> {1, 2, 3}" by auto
    then show "litFloat (node.Value (?cs ! j)) \<noteq> None"
      using a by (auto simp: litFloat_def NodeIsList_def simp del: not_None_eq)
  qed
  from C4_drill_one_geometry [OF dec ord] dec show ?thesis by simp
qed

section \<open>Clauses that fail the decode\<close>

text \<open>
  On a document \<^verbatim>\<open>(module name clause ...)\<close> the decoder is the loop over the clauses,
  whatever error value the parser returned.
\<close>

lemma DecodeModule_document:
  assumes "Parse r = (Some (Node v [Node w (atom ''module'' # atom name # clauses)]), e)"
    and "clauses \<noteq> []"
  shows "DecodeModule Parse pf pint r =
    forChildren
      (\<lambda>i out. moduleClause pf pint
         (Child (Some (Node w (atom ''module'' # atom name # clauses))) i) out)
      (Some (Node w (atom ''module'' # atom name # clauses))) 2
      (zeroModule\<lparr>Module.Name := name\<rparr>)"
proof -
  from assms(2) obtain c cs where "clauses = c # cs" by (cases clauses) simp_all
  then show ?thesis
    using assms(1) by (simp add: DecodeModule_def sexp_defs)
qed

lemma DecodeModule_clause_fails:
  assumes parse: "Parse r = (Some (Node v [Node w (atom ''module'' # atom name # clauses)]), e)"
    and i: "i < length clauses"
    and fails: "\<And>out. moduleClause pf pint (Some (clauses ! i)) out = Inl err"
  shows "(\<exists>err'. DecodeModule Parse pf pint r = Inl err')
    \<and> ((\<forall>j<i. \<forall>out. \<exists>out'. moduleClause pf pint (Some (clauses ! j)) out = Inr out')
         \<longrightarrow> DecodeModule Parse pf pint r = Inl err)"
proof -
  let ?main = "Node w (atom ''module'' # atom name # clauses)"
  let ?body = "\<lambda>i out. moduleClause pf pint (Child (Some ?main) i) out"
  have ne: "clauses \<noteq> []" using i by auto
  have child: "Child (Some ?main) (j + 2) = Some (clauses ! j)" if "j < length clauses" for j
    using that by (simp add: Child_def Nth_def)
  have at_i: "?body (i + 2) out = Inl err" for out
    using fails child [OF i] by simp
  have len: "i + 2 < length (Children ?main)" using i by simp
  have "\<exists>err'. forChildren ?body (Some ?main) 2 (zeroModule\<lparr>Module.Name := name\<rparr>) = Inl err'"
    by (rule forChildren_fails [where i = "i + 2"]) (use at_i len in auto)
  moreover have "forChildren ?body (Some ?main) 2 (zeroModule\<lparr>Module.Name := name\<rparr>) = Inl err"
    if earlier: "\<forall>j<i. \<forall>out. \<exists>out'. moduleClause pf pint (Some (clauses ! j)) out = Inr out'"
  proof (rule forChildren_reaches [where i = "i + 2"])
    show "?body (i + 2) b = Inl err" for b by (rule at_i)
    show "2 \<le> i + 2" by simp
    show "i + 2 < length (Children ?main)" by (rule len)
    show "\<exists>b'. ?body j b = Inr b'" if "2 \<le> j" "j < i + 2" for j b
    proof -
      from that obtain k where k: "j = k + 2" "k < i"
        by (metis add.commute le_Suc_ex nat_add_left_cancel_less)
      then have "k < length clauses" using i by simp
      then show ?thesis using earlier k child [of k] by simp
    qed
  qed
  ultimately show ?thesis
    by (simp add: DecodeModule_document [of Parse r, OF parse ne])
qed

text \<open>
  C7. In a document \<^verbatim>\<open>(module name clause ...)\<close>, a clause that is a list of at least
  two children, led by a scalar keyword outside the vocabulary of the switch, makes the
  decode fail: no module is returned, and when the clauses before it decode, the failure
  is the error \<^verbatim>\<open>cannot handle expression: \<close> followed by the keyword.
\<close>

theorem C7_unrecognized_clause:
  assumes "Parse r = (Some (Node v [Node w (atom ''module'' # atom name # clauses)]), e)"
    and "i < length clauses"
    and "clauses ! i = Node u (atom kw # arg # args)"
    and "kw \<notin> set moduleKeywords"
  shows "(\<exists>err. DecodeModule Parse pf pint r = Inl err)
    \<and> ((\<forall>j<i. \<forall>out. \<exists>out'. moduleClause pf pint (Some (clauses ! j)) out = Inr out')
         \<longrightarrow> DecodeModule Parse pf pint r = Inl (Err (''cannot handle expression: '' @ kw)))"
proof (rule DecodeModule_clause_fails [of Parse r, OF assms(1,2)])
  fix out :: "'c Module"
  show "moduleClause pf pint (Some (clauses ! i)) out =
      Inl (Err (''cannot handle expression: '' @ kw))"
    using assms(4)
    by (simp add: assms(3) moduleClause_def moduleKeywords_def sexp_defs)
qed

theorem C7_unrecognized_clause_witness:
  "DecodeModule
     (\<lambda>u :: unit. (Some (lst [lst [atom ''module'', atom ''M'', lst [atom ''layer'', atom ''F.Cu''],
        lst [atom ''bogus_clause'', atom ''1'', atom ''2'']]]), None :: unit option))
     litFloat litInt () =
   (Inl (Err ''cannot handle expression: bogus_clause'') :: error + real Module)"
proof -
  let ?P = "\<lambda>u :: unit. (Some (lst [lst [atom ''module'', atom ''M'', lst [atom ''layer'', atom ''F.Cu''],
        lst [atom ''bogus_clause'', atom ''1'', atom ''2'']]]), None :: unit option)"
  have earlier: "\<forall>j<1. \<forall>out :: real Module. \<exists>out'. moduleClause litFloat litInt
      (Some ([lst [atom ''layer'', atom ''F.Cu''],
        lst [atom ''bogus_clause'', atom ''1'', atom ''2'']] ! j)) out = Inr out'"
    by (simp add: moduleClause_def sexp_defs)
  have "(\<exists>err. DecodeModule ?P litFloat litInt () = (Inl err :: error + real Module))
    \<and> ((\<forall>j<1. \<forall>out :: real Module. \<exists>out'. moduleClause litFloat litInt
      (Some ([lst [atom ''layer'', atom ''F.Cu''],
        lst [atom ''bogus_clause'', atom ''1'', atom ''2'']] ! j)) out = Inr out')
         \<longrightarrow> DecodeModule ?P litFloat litInt () =
           (Inl (Err (''cannot handle expression: '' @ ''bogus_clause'')) :: error + real Module))"
    by (rule C7_unrecognized_clause [where Parse = ?P and r = "()" and i = 1 and arg = "atom ''1''" and args = "[atom ''2'']"
          and u = "[]" and v = "[]" and w = "[]" and e = None])
       (simp_all add: moduleKeywords_def)
  then show ?thesis using earlier by simp
qed


section \<open>Scalar fields that do not coerce\<close>

text \<open>
  C5, as stated, fails: a placement clause with a coordinate that is not a number makes
  the decoder panic; no error is returned.
\<close>

theorem C5_float_field_panics_counterexample:
  "DecodeModule
     (\<lambda>u :: unit. (Some (lst [lst [atom ''module'', atom ''M'',
        lst [atom ''at'', atom ''x'', atom ''0'']]]), None :: unit option))
     litFloat litInt () =
   (Inl Panic :: error + real Module)"
  by (simp add: DecodeModule_def sexp_defs forChildren_Some moduleClause_def xyArgs_def
      litFloat_def cong: bind_weak_cong)

text \<open>
  C5, amended. Take a document \<^verbatim>\<open>(module name clause ...)\<close> and in it a clause
  \<^verbatim>\<open>(kw arg ...)\<close>: a list led by the scalar keyword \<open>kw\<close>, with at least one argument.
  When \<open>kw\<close> is \<^verbatim>\<open>layer\<close>, \<^verbatim>\<open>tedit\<close>, \<^verbatim>\<open>model\<close> or \<^verbatim>\<open>descr\<close> and the argument does
  not coerce to a string, when \<open>kw\<close> is \<^verbatim>\<open>clearance\<close>, \<^verbatim>\<open>solder_mask_margin\<close>,
  \<^verbatim>\<open>solder_paste_margin\<close> or \<^verbatim>\<open>solder_paste_ratio\<close> and the argument is not a number,
  and when \<open>kw\<close> is \<^verbatim>\<open>at\<close> and the first argument is not a number or the second one is
  not a number or is missing, the decode returns no module. When moreover every clause
  before it decodes, the outcome is: for \<^verbatim>\<open>layer\<close>, \<^verbatim>\<open>tedit\<close> and \<^verbatim>\<open>model\<close> the error
  naming that field, for \<^verbatim>\<open>descr\<close> an error, and for the five numeric fields a panic.
\<close>

theorem C5_scalar_field_failures:
  assumes parse: "Parse r = (Some (Node v [Node w (atom ''module'' # atom name # clauses)]), e)"
    and i: "i < length clauses"
    and clause: "clauses ! i = Node u (atom kw # arg # args)"
  shows "(kw = ''layer'' \<and> String (Some arg) = None \<longrightarrow>
           (\<exists>err. DecodeModule Parse pf pint r = Inl err)
           \<and> ((\<forall>j<i. \<forall>out. \<exists>out'. moduleClause pf pint (Some (clauses ! j)) out = Inr out')
                \<longrightarrow> DecodeModule Parse pf pint r =
                  Inl (Err ''invalid format: layer value must be a string'')))
    \<and> (kw = ''tedit'' \<and> String (Some arg) = None \<longrightarrow>
           (\<exists>err. DecodeModule Parse pf pint r = Inl err)
           \<and> ((\<forall>j<i. \<forall>out. \<exists>out'. moduleClause pf pint (Some (clauses ! j)) out = Inr out')
                \<longrightarrow> DecodeModule Parse pf pint r =
                  Inl (Err ''invalid format: tedit value must be a string'')))
    \<and> (kw = ''model'' \<and> String (Some arg) = None \<longrightarrow>
           (\<exists>err. DecodeModule Parse pf pint r = Inl err)
           \<and> ((\<forall>j<i. \<forall>out. \<exists>out'. moduleClause pf pint (Some (clauses ! j)) out = Inr out')
                \<longrightarrow> DecodeModule Parse pf pint r =
                  Inl (Err ''invalid format: model value must be a string'')))
    \<and> (kw = ''descr'' \<and> String (Some arg) = None \<longrightarrow>
           (\<exists>err. DecodeModule Parse pf pint r = Inl err)
           \<and> ((\<forall>j<i. \<forall>out. \<exists>out'. moduleClause pf pint (Some (clauses ! j)) out = Inr out')
                \<longrightarrow> (\<exists>msg. DecodeModule Parse pf pint r = Inl (Err msg))))
    \<and> (kw \<in> {''clearance'', ''solder_mask_margin'', ''solder_paste_margin'',
               ''solder_paste_ratio''} \<and> Float64 pf (Some arg) = None \<longrightarrow>
           (\<exists>err. DecodeModule Parse pf pint r = Inl err)
           \<and> ((\<forall>j<i. \<forall>out. \<exists>out'. moduleClause pf pint (Some (clauses ! j)) out = Inr out')
                \<longrightarrow> DecodeModule Parse pf pint r = Inl Panic))
    \<and> (kw = ''at'' \<and> (Float64 pf (Some arg) = None
               \<or> Float64 pf (Child (Some (clauses ! i)) 2) = None) \<longrightarrow>
           (\<exists>err. DecodeModule Parse pf pint r = Inl err)
           \<and> ((\<forall>j<i. \<forall>out. \<exists>out'. moduleClause pf pint (Some (clauses ! j)) out = Inr out')
                \<longrightarrow> DecodeModule Parse pf pint r = Inl Panic))"
proof -
  let ?earlier = "\<forall>j<i. \<forall>out. \<exists>out'. moduleClause pf pint (Some (clauses ! j)) out = Inr out'"
  have reach: "(\<exists>err'. DecodeModule Parse pf pint r = Inl err')
      \<and> (?earlier \<longrightarrow> DecodeModule Parse pf pint r = Inl err)"
    if "\<And>out. moduleClause pf pint (Some (clauses ! i)) out = Inl err" for err
    by (rule DecodeModule_clause_fails [of Parse r, OF parse i that])
  have shape: "IsList (Some (clauses ! i))" "IsValid (Some arg)"
    "MustString (Child (Some (clauses ! i)) 0) = Inr kw"
    "Child (Some (clauses ! i)) (Suc 0) = Some arg"
    by (simp_all add: clause sexp_defs)
  have layer: "(\<exists>err'. DecodeModule Parse pf pint r = Inl err')
      \<and> (?earlier \<longrightarrow> DecodeModule Parse pf pint r =
        Inl (Err ''invalid format: layer value must be a string''))"
    if "kw = ''layer''" "String (Some arg) = None"
    by (rule reach) (simp add: moduleClause_def shape that)
  have tedit: "(\<exists>err'. DecodeModule Parse pf pint r = Inl err')
      \<and> (?earlier \<longrightarrow> DecodeModule Parse pf pint r =
        Inl (Err ''invalid format: tedit value must be a string''))"
    if "kw = ''tedit''" "String (Some arg) = None"
    by (rule reach) (simp add: moduleClause_def shape that)
  have model: "(\<exists>err'. DecodeModule Parse pf pint r = Inl err')
      \<and> (?earlier \<longrightarrow> DecodeModule Parse pf pint r =
        Inl (Err ''invalid format: model value must be a string''))"
    if "kw = ''model''" "String (Some arg) = None"
    by (rule reach) (simp add: moduleClause_def shape that)
  have descr: "(\<exists>err'. DecodeModule Parse pf pint r = Inl err')
      \<and> (?earlier \<longrightarrow> (\<exists>msg. DecodeModule Parse pf pint r = Inl (Err msg)))"
    if "kw = ''descr''" "String (Some arg) = None"
  proof -
    have "(\<exists>err'. DecodeModule Parse pf pint r = Inl err')
      \<and> (?earlier \<longrightarrow> DecodeModule Parse pf pint r =
        Inl (Err ''invalid format: tedit value must be a string''))"
      by (rule reach) (simp add: moduleClause_def shape that)
    then show ?thesis by blast
  qed
  have float: "(\<exists>err'. DecodeModule Parse pf pint r = Inl err')
      \<and> (?earlier \<longrightarrow> DecodeModule Parse pf pint r = Inl Panic)"
    if "kw \<in> {''clearance'', ''solder_mask_margin'', ''solder_paste_margin'',
               ''solder_paste_ratio''}" "Float64 pf (Some arg) = None"
  proof (rule reach)
    fix out :: "'c Module"
    have panic: "MustFloat64 pf (Some arg) = Inl Panic"
      by (simp add: MustFloat64_def that(2))
    from that(1) consider (a) "kw = ''clearance''" | (b) "kw = ''solder_mask_margin''"
      | (c) "kw = ''solder_paste_margin''" | (d) "kw = ''solder_paste_ratio''"
      by auto
    then show "moduleClause pf pint (Some (clauses ! i)) out = Inl Panic"
    proof cases
      case a
      show ?thesis by (simp add: moduleClause_def shape a panic)
    next
      case b
      show ?thesis by (simp add: moduleClause_def shape b panic)
    next
      case c
      show ?thesis by (simp add: moduleClause_def shape c panic)
    next
      case d
      show ?thesis by (simp add: moduleClause_def shape d panic)
    qed
  qed
  have at: "(\<exists>err'. DecodeModule Parse pf pint r = Inl err')
      \<and> (?earlier \<longrightarrow> DecodeModule Parse pf pint r = Inl Panic)"
    if "kw = ''at''" "Float64 pf (Some arg) = None
               \<or> Float64 pf (Child (Some (clauses ! i)) 2) = None"
  proof (rule reach)
    fix out :: "'c Module"
    have "xyArgs pf (Some (clauses ! i)) = Inl Panic"
      using that(2) by (auto simp: xyArgs_def shape MustFloat64_def split: option.splits)
    then show "moduleClause pf pint (Some (clauses ! i)) out = Inl Panic"
      by (simp add: moduleClause_def shape that(1))
  qed
  show ?thesis
  proof (intro conjI impI)
    assume "kw = ''layer'' \<and> String (Some arg) = None"
    then show "\<exists>err. DecodeModule Parse pf pint r = Inl err" using layer by simp
  next
    assume "kw = ''layer'' \<and> String (Some arg) = None" and ?earlier
    then show "DecodeModule Parse pf pint r =
        Inl (Err ''invalid format: layer value must be a string'')"
      using layer by simp
  next
    assume "kw = ''tedit'' \<and> String (Some arg) = None"
    then show "\<exists>err. DecodeModule Parse pf pint r = Inl err" using tedit by simp
  next
    assume "kw = ''tedit'' \<and> String (Some arg) = None" and ?earlier
    then show "DecodeModule Parse pf pint r =
        Inl (Err ''invalid format: tedit value must be a string'')"
      using tedit by simp
  next
    assume "kw = ''model'' \<and> String (Some arg) = None"
    then show "\<exists>err. DecodeModule Parse pf pint r = Inl err" using model by simp
  next
    assume "kw = ''model'' \<and> String (Some arg) = None" and ?earlier
    then show "DecodeModule Parse pf pint r =
        Inl (Err ''invalid format: model value must be a string'')"
      using model by simp
  next
    assume "kw = ''descr'' \<and> String (Some arg) = None"
    then show "\<exists>err. DecodeModule Parse pf pint r = Inl err" using descr by simp
  next
    assume "kw = ''descr'' \<and> String (Some arg) = None" and ?earlier
    then show "\<exists>msg. DecodeModule Parse pf pint r = Inl (Err msg)" using descr by simp
  next
    assume "kw \<in> {''clearance'', ''solder_mask_margin'', ''solder_paste_margin'',
        ''solder_paste_ratio''} \<and> Float64 pf (Some arg) = None"
    then show "\<exists>err. DecodeModule Parse pf pint r = Inl err" using float by blast
  next
    assume "kw \<in> {''clearance'', ''solder_mask_margin'', ''solder_paste_margin'',
        ''solder_paste_ratio''} \<and> Float64 pf (Some arg) = None" and ?earlier
    then show "DecodeModule Parse pf pint r = Inl Panic" using float by blast
  next
    assume "kw = ''at'' \<and> (Float64 pf (Some arg) = None
        \<or> Float64 pf (Child (Some (clauses ! i)) 2) = None)"
    then show "\<exists>err. DecodeModule Parse pf pint r = Inl err" using at by simp
  next
    assume "kw = ''at'' \<and> (Float64 pf (Some arg) = None
        \<or> Float64 pf (Child (Some (clauses ! i)) 2) = None)" and ?earlier
    then show "DecodeModule Parse pf pint r = Inl Panic" using at by simp
  qed
qed

theorem C5_scalar_field_failures_witness:
  "DecodeModule (parsed (lst [lst [atom ''module'', atom ''M'',
      lst [atom ''layer'', lst [atom ''a'', atom ''b'']]]])) litFloat litInt () =
     (Inl (Err ''invalid format: layer value must be a string'') :: error + real Module)
   \<and> DecodeModule (parsed (lst [lst [atom ''module'', atom ''M'',
      lst [atom ''layer'', atom ''F.Cu''], lst [atom ''clearance'', atom ''wide'']]]))
      litFloat litInt () = (Inl Panic :: error + real Module)
   \<and> DecodeModule (parsed (lst [lst [atom ''module'', atom ''M'',
      lst [atom ''layer'', atom ''F.Cu''], lst [atom ''at'', atom ''0'']]]))
      litFloat litInt () = (Inl Panic :: error + real Module)
   \<and> (\<exists>err. DecodeModule (parsed (lst [lst [atom ''module'', atom ''M'',
      lst [atom ''bogus'', atom ''1''], lst [atom ''layer'', lst [atom ''a'', atom ''b'']]]]))
      litFloat litInt () = (Inl err :: error + real Module))"
proof -
  have earlier: "\<forall>j<1. \<forall>out :: real Module. \<exists>out'. moduleClause litFloat litInt
      (Some ((lst [atom ''layer'', atom ''F.Cu''] # cs) ! j)) out = Inr out'" for cs
    by (simp add: moduleClause_def sexp_defs)
  have w1: "DecodeModule (parsed (lst [lst [atom ''module'', atom ''M'',
      lst [atom ''layer'', lst [atom ''a'', atom ''b'']]]])) litFloat litInt () =
     (Inl (Err ''invalid format: layer value must be a string'') :: error + real Module)"
    using C5_scalar_field_failures [where Parse = "parsed (lst [lst [atom ''module'', atom ''M'',
        lst [atom ''layer'', lst [atom ''a'', atom ''b'']]]])" and r = "()" and i = 0
        and clauses = "[lst [atom ''layer'', lst [atom ''a'', atom ''b'']]]"
        and kw = "''layer''" and arg = "lst [atom ''a'', atom ''b'']" and args = "[]"
        and pf = litFloat and pint = litInt and u = "[]" and v = "[]" and w = "[]"
        and name = "''M''" and e = None]
    by (simp add: String_def NodeIsList_def)
  have w2: "DecodeModule (parsed (lst [lst [atom ''module'', atom ''M'',
      lst [atom ''layer'', atom ''F.Cu''], lst [atom ''clearance'', atom ''wide'']]]))
      litFloat litInt () = (Inl Panic :: error + real Module)"
    using C5_scalar_field_failures [where Parse = "parsed (lst [lst [atom ''module'', atom ''M'',
        lst [atom ''layer'', atom ''F.Cu''], lst [atom ''clearance'', atom ''wide'']]])"
        and r = "()" and i = 1
        and clauses = "[lst [atom ''layer'', atom ''F.Cu''], lst [atom ''clearance'', atom ''wide'']]"
        and kw = "''clearance''" and arg = "atom ''wide''" and args = "[]"
        and pf = litFloat and pint = litInt and u = "[]" and v = "[]" and w = "[]"
        and name = "''M''" and e = None]
      earlier [of "[lst [atom ''clearance'', atom ''wide'']]"]
    by (simp add: Float64_def NodeIsList_def litFloat_def)
  have w3: "DecodeModule (parsed (lst [lst [atom ''module'', atom ''M'',
      lst [atom ''layer'', atom ''F.Cu''], lst [atom ''at'', atom ''0'']]]))
      litFloat litInt () = (Inl Panic :: error + real Module)"
    using C5_scalar_field_failures [where Parse = "parsed (lst [lst [atom ''module'', atom ''M'',
        lst [atom ''layer'', atom ''F.Cu''], lst [atom ''at'', atom ''0'']]])"
        and r = "()" and i = 1
        and clauses = "[lst [atom ''layer'', atom ''F.Cu''], lst [atom ''at'', atom ''0'']]"
        and kw = "''at''" and arg = "atom ''0''" and args = "[]"
        and pf = litFloat and pint = litInt and u = "[]" and v = "[]" and w = "[]"
        and name = "''M''" and e = None]
      earlier [of "[lst [atom ''at'', atom ''0'']]"]
    by (simp add: Float64_def Child_def Nth_def)
  have w4: "\<exists>err. DecodeModule (parsed (lst [lst [atom ''module'', atom ''M'',
      lst [atom ''bogus'', atom ''1''], lst [atom ''layer'', lst [atom ''a'', atom ''b'']]]]))
      litFloat litInt () = (Inl err :: error + real Module)"
    using C5_scalar_field_failures [where Parse = "parsed (lst [lst [atom ''module'', atom ''M'',
        lst [atom ''bogus'', atom ''1''], lst [atom ''layer'', lst [atom ''a'', atom ''b'']]]])"
        and r = "()" and i = 1
        and clauses = "[lst [atom ''bogus'', atom ''1''], lst [atom ''layer'', lst [atom ''a'', atom ''b'']]]"
        and kw = "''layer''" and arg = "lst [atom ''a'', atom ''b'']" and args = "[]"
        and pf = litFloat and pint = litInt and u = "[]" and v = "[]" and w = "[]"
        and name = "''M''" and e = None]
    by (simp add: String_def NodeIsList_def)
  show ?thesis using w1 w2 w3 w4 by simp
qed


text \<open>The error of the \<^verbatim>\<open>descr\<close> clause carries the message of the \<^verbatim>\<open>tedit\<close> clause.\<close>

lemma descr_error_names_tedit:
  "DecodeModule
     (\<lambda>u :: unit. (Some (lst [lst [atom ''module'', atom ''M'',
        lst [atom ''descr'', lst [atom ''a'', atom ''b'']]]]), None :: unit option))
     litFloat litInt () =
   (Inl (Err ''invalid format: tedit value must be a string'') :: error + real Module)"
  by (simp add: DecodeModule_def sexp_defs forChildren_Some moduleClause_def
      cong: bind_weak_cong)

text \<open>A clause without an argument is passed over, whatever its keyword.\<close>

lemma moduleClause_no_argument:
  "moduleClause pf pint (Some (Node u [k])) out = Inr out"
  by (simp add: moduleClause_def IsValid_def Child_def Nth_def)

lemma at_without_coordinates_is_skipped:
  "DecodeModule (parsed (lst [lst [atom ''module'', atom ''M'', lst [atom ''at'']]]))
     litFloat litInt () = Inr ((zeroModule :: real Module)\<lparr>Module.Name := ''M''\<rparr>)"
  by (simp add: DecodeModule_def sexp_defs forChildren_Some moduleClause_def
      cong: bind_weak_cong)


section \<open>Polygon points\<close>

lemma ptsItem_xy:
  assumes "i < length cs" and "xyChild pf (cs ! i) pt"
  shows "ptsItem pf (Some (Node w cs)) i p =
    Inr (p\<lparr>FpPoly.Points := FpPoly.Points p @ [pt]\<rparr>)"
proof -
  from assms(2) obtain k a b where c: "Children (cs ! i) = [k, a, b]"
    by (auto simp: xyChild_def split: list.splits)
  with assms(2) have k: "k = atom ''xy''" and a: "Float64 pf (Some a) = Some (X pt)"
    and b: "Float64 pf (Some b) = Some (Y pt)"
    by (simp_all add: xyChild_def)
  have "xyArgs pf (Some (cs ! i)) = Inr pt"
    by (simp add: xyArgs_def Child_def Nth_def c MustFloat64_def a b)
  moreover have "MustString (Child (Some (cs ! i)) 0) = Inr ''xy''"
    by (simp add: Child_def Nth_def c k MustString_def String_def NodeIsList_def)
  ultimately show ?thesis
    using assms(1) by (simp add: ptsItem_def Child_def Nth_def)
qed

lemma ptsItem_other:
  assumes "i < length cs" and "cs ! i = Node w' (atom kw # args)" and "kw \<noteq> ''xy''"
  shows "ptsItem pf (Some (Node w cs)) i p = Inl (ErrPts kw)"
  using assms
  by (simp add: ptsItem_def Child_def Nth_def MustString_def String_def NodeIsList_def)

text \<open>The loop over a run of \<^verbatim>\<open>xy\<close> children appends their points in order.\<close>

lemma pts_loop_xy:
  assumes "list_all2 (xyChild pf) good pts"
  shows "forChildren (ptsItem pf (Some (Node w (pre @ good @ rest))))
           (Some (Node w (pre @ good @ rest))) (length pre) p =
         forChildren (ptsItem pf (Some (Node w (pre @ good @ rest))))
           (Some (Node w (pre @ good @ rest))) (length pre + length good)
           (p\<lparr>FpPoly.Points := FpPoly.Points p @ pts\<rparr>)"
  using assms
proof (induction good pts arbitrary: pre p rule: list_all2_induct)
  case Nil
  then show ?case by simp
next
  case (Cons g good pt pts)
  let ?cs = "pre @ (g # good) @ rest"
  have here: "ptsItem pf (Some (Node w ?cs)) (length pre) p =
      Inr (p\<lparr>FpPoly.Points := FpPoly.Points p @ [pt]\<rparr>)"
    by (rule ptsItem_xy) (use Cons.hyps(1) in simp_all)
  have ih: "forChildren (ptsItem pf (Some (Node w ?cs))) (Some (Node w ?cs)) (Suc (length pre))
        (p\<lparr>FpPoly.Points := FpPoly.Points p @ [pt]\<rparr>) =
      forChildren (ptsItem pf (Some (Node w ?cs))) (Some (Node w ?cs))
        (Suc (length pre) + length good)
        (p\<lparr>FpPoly.Points := FpPoly.Points p @ pt # pts\<rparr>)"
    using Cons.IH [of "pre @ [g]" "p\<lparr>FpPoly.Points := FpPoly.Points p @ [pt]\<rparr>"] by simp
  show ?case
    using here ih by (subst forChildren_Some) simp
qed

lemma unmarshalFpPoly_rounds:
  "unmarshalFpPoly pf n = forChildren (fpPolyChild pf n) n 1 zeroPoly"
  by (simp add: unmarshalFpPoly_def fpPolyChild_def [abs_def])

lemma fpPolyChild_pts:
  assumes "Child n x = Some c" and "keyword c = Some ''pts''"
  shows "fpPolyChild pf n x p = forChildren (ptsItem pf (Some c)) (Some c) 1 p"
  using assms(2) unfolding fpPolyChild_def assms(1)
  by (simp add: keyword_def MustString_def)

lemma fpPolyChild_keeps:
  assumes "fpPolyChild pf n x p = Inr p'" and "Child n x = Some c"
    and "keyword c \<noteq> Some ''pts''"
  shows "FpPoly.Points p' = FpPoly.Points p"
  using assms(1,3) unfolding fpPolyChild_def assms(2)
  by (auto simp: keyword_def MustString_def bind_eq_Inr split: option.splits if_splits)

lemma ptsItem_appends:
  assumes "ptsItem pf s i p = Inr p'"
  shows "\<exists>ys. FpPoly.Points p' = FpPoly.Points p @ ys"
  using assms by (auto simp: ptsItem_def bind_eq_Inr split: if_splits)

lemma pts_loop_appends:
  assumes "forChildren (ptsItem pf s) s x p = Inr p'"
  shows "\<exists>ys. FpPoly.Points p' = FpPoly.Points p @ ys"
proof (cases s)
  case None
  then show ?thesis using assms by (simp add: forChildren_None)
next
  case (Some nd)
  show ?thesis
  proof (rule forChildren_invariant [OF assms [unfolded Some],
        where P = "\<lambda>b. \<exists>ys. FpPoly.Points b = FpPoly.Points p @ ys"])
    show "\<exists>ys. FpPoly.Points p = FpPoly.Points p @ ys" by simp
    fix i b b'
    assume "\<exists>ys. FpPoly.Points b = FpPoly.Points p @ ys" "ptsItem pf (Some nd) i b = Inr b'"
    then show "\<exists>ys. FpPoly.Points b' = FpPoly.Points p @ ys"
      using ptsItem_appends [of pf "Some nd" i b b'] by auto
  qed
qed

lemma fpPolyChild_appends:
  assumes "fpPolyChild pf n x p = Inr p'"
  shows "\<exists>ys. FpPoly.Points p' = FpPoly.Points p @ ys"
proof (cases "MustString (Child (Child n x) 0)")
  case (Inl e)
  then show ?thesis using assms by (simp add: fpPolyChild_def)
next
  case (Inr kw)
  show ?thesis
  proof (cases "kw = ''pts''")
    case True
    then have "forChildren (ptsItem pf (Child n x)) (Child n x) 1 p = Inr p'"
      using assms Inr by (simp add: fpPolyChild_def)
    then show ?thesis by (rule pts_loop_appends)
  next
    case False
    then have "FpPoly.Points p' = FpPoly.Points p"
      using assms Inr by (auto simp: fpPolyChild_def bind_eq_Inr split: if_splits)
    then show ?thesis by simp
  qed
qed

text \<open>The round at a \<^verbatim>\<open>pts\<close> clause whose children are all \<^verbatim>\<open>xy\<close> lists.\<close>

lemma pts_clause_xy:
  assumes "list_all2 (xyChild pf) items pts"
  shows "forChildren (ptsItem pf (Some (Node w (atom ''pts'' # items))))
           (Some (Node w (atom ''pts'' # items))) 1 p =
         Inr (p\<lparr>FpPoly.Points := FpPoly.Points p @ pts\<rparr>)"
  using pts_loop_xy [OF assms, of w "[atom ''pts'']" "[]" p]
  by (simp add: forChildren_done)

text \<open>The round at a \<^verbatim>\<open>pts\<close> clause with a child that is no \<^verbatim>\<open>xy\<close> list.\<close>

lemma pts_clause_bad:
  assumes "list_all2 (xyChild pf) good pts"
    and "\<And>q. ptsItem pf (Some (Node w (atom ''pts'' # good @ bad # rest)))
          (Suc (length good)) q = Inl err"
  shows "forChildren (ptsItem pf (Some (Node w (atom ''pts'' # good @ bad # rest))))
           (Some (Node w (atom ''pts'' # good @ bad # rest))) 1 p = Inl err"
proof -
  let ?cs = "atom ''pts'' # good @ bad # rest"
  have "forChildren (ptsItem pf (Some (Node w ?cs))) (Some (Node w ?cs))
        (Suc (length good)) q = Inl err" for q
    using assms(2) [of q] by (subst forChildren_Some) simp
  then show ?thesis
    using pts_loop_xy [OF assms(1), of w "[atom ''pts'']" "bad # rest" p] by simp
qed

lemma ptsItem_keyword:
  assumes "i < length cs" and "keyword (cs ! i) = Some kw" and "kw \<noteq> ''xy''"
  shows "ptsItem pf (Some (Node w cs)) i p = Inl (ErrPts kw)"
  using assms
  by (simp add: ptsItem_def Child_def Nth_def MustString_def keyword_def)

lemma ptsItem_no_keyword:
  assumes "i < length cs" and "keyword (cs ! i) = None"
  shows "ptsItem pf (Some (Node w cs)) i p = Inl Panic"
  using assms
  by (simp add: ptsItem_def Child_def Nth_def MustString_def keyword_def)


text \<open>
  The points of a polygon that decodes: those of a \<^verbatim>\<open>pts\<close> sub-clause stand in its vertex
  sequence as one run, and are all of it when no other sub-clause is led by \<^verbatim>\<open>pts\<close>.
\<close>

lemma fpPoly_points:
  assumes dec: "unmarshalFpPoly pf (Some (Node u (h # pre @ Node w (atom ''pts'' # items) # post))) =
      Inr R"
    and xy: "list_all2 (xyChild pf) items pts"
  shows "(\<exists>before after. FpPoly.Points R = before @ pts @ after)
    \<and> ((\<forall>c \<in> set (pre @ post). keyword c \<noteq> Some ''pts'') \<longrightarrow> FpPoly.Points R = pts)"
proof -
  let ?P = "Node w (atom ''pts'' # items)"
  let ?cs = "h # pre @ ?P # post"
  let ?n = "Some (Node u ?cs)"
  let ?k = "Suc (length pre)"
  let ?only = "\<forall>c \<in> set (pre @ post). keyword c \<noteq> Some ''pts''"
  have kwP: "keyword ?P = Some ''pts''"
    by (simp add: keyword_def Child_def Nth_def String_def NodeIsList_def)
  have childP: "Child ?n ?k = Some ?P"
    by (simp add: Child_def Nth_def nth_append)
  have child_pre: "Child ?n i = Some (pre ! (i - 1))" if "1 \<le> i" "i < ?k" for i
    using that by (cases i) (simp_all add: Child_def Nth_def nth_append)
  have child_post: "Child ?n i = Some (post ! (i - Suc ?k))"
    if "Suc ?k \<le> i" "i < length ?cs" for i
  proof -
    define j where "j = i - Suc ?k"
    have j: "i = Suc ?k + j" "j < length post" using that by (simp_all add: j_def)
    have "Child ?n (Suc ?k + j) = Some (post ! j)"
      using j(2) by (simp add: Child_def Nth_def nth_append)
    then have "Child ?n i = Some (post ! j)" by (simp only: j(1))
    then show ?thesis by (simp only: j_def)
  qed
  have run: "forChildren (fpPolyChild pf ?n) ?n 1 zeroPoly = Inr R"
    using dec by (simp add: unmarshalFpPoly_rounds)
  have "\<exists>b c. (?only \<longrightarrow> FpPoly.Points b = []) \<and> fpPolyChild pf ?n ?k b = Inr c
      \<and> forChildren (fpPolyChild pf ?n) ?n (Suc ?k) c = Inr R"
  proof (rule forChildren_split_at [OF run])
    show "1 \<le> ?k" by simp
    show "?k < length (Children (Node u ?cs))" by simp
    show "?only \<longrightarrow> FpPoly.Points (zeroPoly :: 'a FpPoly) = []" by (simp add: zeroPoly_def)
    fix i and b b' :: "'a FpPoly"
    assume i: "1 \<le> i" "i < ?k" and b: "?only \<longrightarrow> FpPoly.Points b = []"
      and step: "fpPolyChild pf ?n i b = Inr b'"
    show "?only \<longrightarrow> FpPoly.Points b' = []"
    proof
      assume only: ?only
      have "pre ! (i - 1) \<in> set pre" using i by (cases i) simp_all
      then have "keyword (pre ! (i - 1)) \<noteq> Some ''pts''" using only by simp
      then have "FpPoly.Points b' = FpPoly.Points b"
        using fpPolyChild_keeps [OF step child_pre [OF i]] by simp
      then show "FpPoly.Points b' = []" using b only by simp
    qed
  qed
  then obtain b c where b: "?only \<longrightarrow> FpPoly.Points b = []"
    and c: "fpPolyChild pf ?n ?k b = Inr c"
    and rest: "forChildren (fpPolyChild pf ?n) ?n (Suc ?k) c = Inr R"
    by blast
  have c_eq: "c = b\<lparr>FpPoly.Points := FpPoly.Points b @ pts\<rparr>"
    using c fpPolyChild_pts [OF childP kwP, of pf b] pts_clause_xy [OF xy, of w b] by simp
  have after: "(\<exists>ys. FpPoly.Points R = FpPoly.Points c @ ys)
      \<and> (?only \<longrightarrow> FpPoly.Points R = FpPoly.Points c)"
  proof (rule forChildren_invariant [OF rest, where P = "\<lambda>s.
        (\<exists>ys. FpPoly.Points s = FpPoly.Points c @ ys)
        \<and> (?only \<longrightarrow> FpPoly.Points s = FpPoly.Points c)"])
    show "(\<exists>ys. FpPoly.Points c = FpPoly.Points c @ ys)
        \<and> (?only \<longrightarrow> FpPoly.Points c = FpPoly.Points c)" by simp
    fix i and s s' :: "'a FpPoly"
    assume i: "Suc ?k \<le> i" "i < length (Children (Node u ?cs))"
      and s: "(\<exists>ys. FpPoly.Points s = FpPoly.Points c @ ys)
        \<and> (?only \<longrightarrow> FpPoly.Points s = FpPoly.Points c)"
      and step: "fpPolyChild pf ?n i s = Inr s'"
    have i': "i < length ?cs" using i(2) by simp
    from fpPolyChild_appends [OF step] s
    have app: "\<exists>ys. FpPoly.Points s' = FpPoly.Points c @ ys" by auto
    have "FpPoly.Points s' = FpPoly.Points c" if only: ?only
    proof -
      have "i - Suc ?k < length post" using i by simp
      then have "post ! (i - Suc ?k) \<in> set post" by simp
      then have "keyword (post ! (i - Suc ?k)) \<noteq> Some ''pts''" using only by simp
      then have "FpPoly.Points s' = FpPoly.Points s"
        using fpPolyChild_keeps [OF step child_post [OF i(1) i']] by simp
      then show ?thesis using s only by simp
    qed
    with app show "(\<exists>ys. FpPoly.Points s' = FpPoly.Points c @ ys)
        \<and> (?only \<longrightarrow> FpPoly.Points s' = FpPoly.Points c)" by blast
  qed
  from after obtain ys where "FpPoly.Points R = FpPoly.Points b @ pts @ ys"
    by (auto simp: c_eq)
  then have "\<exists>before after. FpPoly.Points R = before @ pts @ after" by blast
  moreover have "FpPoly.Points R = pts" if ?only
    using after b that by (simp add: c_eq)
  ultimately show ?thesis by blast
qed


text \<open>
  A polygon with a \<^verbatim>\<open>pts\<close> sub-clause one of whose children fails, after children that
  are \<^verbatim>\<open>xy\<close> lists: the extractor fails, and with the failure of that child when the
  sub-clauses before \<^verbatim>\<open>pts\<close> decode.
\<close>

lemma fpPoly_bad_child:
  assumes good: "list_all2 (xyChild pf) good pts"
    and bad: "\<And>q. ptsItem pf (Some (Node w (atom ''pts'' # good @ bad # rest)))
          (Suc (length good)) q = Inl err"
  shows "(\<exists>err'. unmarshalFpPoly pf
            (Some (Node u (h # pre @ Node w (atom ''pts'' # good @ bad # rest) # post))) = Inl err')
    \<and> ((\<exists>p0. unmarshalFpPoly pf (Some (Node u (h # pre))) = Inr p0) \<longrightarrow>
          unmarshalFpPoly pf
            (Some (Node u (h # pre @ Node w (atom ''pts'' # good @ bad # rest) # post))) = Inl err)"
proof -
  let ?P = "Node w (atom ''pts'' # good @ bad # rest)"
  let ?cs = "h # pre @ ?P # post"
  let ?n = "Some (Node u ?cs)"
  let ?f = "Some (Node u (h # pre))"
  let ?k = "Suc (length pre)"
  have kwP: "keyword ?P = Some ''pts''"
    by (simp add: keyword_def Child_def Nth_def String_def NodeIsList_def)
  have childP: "Child ?n ?k = Some ?P"
    by (simp add: Child_def Nth_def nth_append)
  have round: "fpPolyChild pf ?n ?k p = Inl err" for p
    using fpPolyChild_pts [OF childP kwP, of pf p] pts_clause_bad [OF good bad, of p] by simp
  have "\<exists>err'. forChildren (fpPolyChild pf ?n) ?n 1 zeroPoly = Inl err'"
    by (rule forChildren_fails [where i = ?k]) (use round in auto)
  then have fails: "\<exists>err'. unmarshalFpPoly pf ?n = Inl err'"
    by (simp add: unmarshalFpPoly_rounds)
  have exact: "unmarshalFpPoly pf ?n = Inl err" if front: "unmarshalFpPoly pf ?f = Inr p0" for p0
  proof -
    have same: "fpPolyChild pf ?n i b = fpPolyChild pf ?f i b"
      if "i < length (h # pre)" for i and b :: "'a FpPoly"
    proof -
      have "(h # pre @ ?P # post) ! i = (h # pre) ! i"
        using that by (cases i) (simp_all add: nth_append)
      then have e: "Child ?n i = Child ?f i"
        using that by (simp add: Child_def Nth_def)
      show ?thesis unfolding fpPolyChild_def e by (rule refl)
    qed
    have "forChildren (fpPolyChild pf ?n) ?f 1 zeroPoly =
        forChildren (fpPolyChild pf ?f) ?f 1 zeroPoly"
      by (rule forChildren_cong_body) (use same in simp)
    then have run_front: "forChildren (fpPolyChild pf ?n) ?f 1 zeroPoly = Inr p0"
      using front by (simp add: unmarshalFpPoly_rounds)
    have at_k: "forChildren (fpPolyChild pf ?n) ?n ?k p0 = Inl err"
      by (subst forChildren_Some) (simp add: round)
    have "forChildren (fpPolyChild pf ?n) (Some (Node u ((h # pre) @ (?P # post)))) 1 zeroPoly =
        bind (forChildren (fpPolyChild pf ?n) ?f 1 zeroPoly)
          (\<lambda>b. forChildren (fpPolyChild pf ?n) (Some (Node u ((h # pre) @ (?P # post))))
            (length (h # pre)) b)"
      by (rule forChildren_front) simp
    then have "forChildren (fpPolyChild pf ?n) ?n 1 zeroPoly = Inl err"
      using run_front at_k by simp
    then show ?thesis by (simp add: unmarshalFpPoly_rounds)
  qed
  show ?thesis using fails exact by blast
qed

lemma moduleClause_fp_poly:
  assumes "cs \<noteq> []"
  shows "moduleClause pf pint (Some (Node u (atom ''fp_poly'' # cs))) out =
    bind (unmarshalFpPoly pf (Some (Node u (atom ''fp_poly'' # cs))))
      (\<lambda>p. Inr (out\<lparr>Module.Polygons := Module.Polygons out @ [p]\<rparr>))"
proof -
  from assms obtain c cs' where "cs = c # cs'" by (cases cs) simp_all
  then show ?thesis by (simp add: moduleClause_def sexp_defs)
qed

text \<open>The same, for the whole document.\<close>

lemma DecodeModule_bad_pts_child:
  assumes parse: "Parse r = (Some (Node v [Node w0 (atom ''module'' # atom name # clauses)]), e)"
    and i: "i < length clauses"
    and poly: "clauses ! i =
      Node u (atom ''fp_poly'' # pre @ Node w (atom ''pts'' # good @ bad # rest) # post)"
    and good: "list_all2 (xyChild pf) good pts"
    and bad: "\<And>q. ptsItem pf (Some (Node w (atom ''pts'' # good @ bad # rest)))
          (Suc (length good)) q = Inl err"
  shows "(\<exists>err'. DecodeModule Parse pf pint r = Inl err')
    \<and> ((\<forall>j<i. \<forall>out. \<exists>out'. moduleClause pf pint (Some (clauses ! j)) out = Inr out')
          \<and> (\<exists>p0. unmarshalFpPoly pf (Some (Node u (atom ''fp_poly'' # pre))) = Inr p0)
        \<longrightarrow> DecodeModule Parse pf pint r = Inl err)"
proof -
  let ?c = "Node u (atom ''fp_poly'' # pre @ Node w (atom ''pts'' # good @ bad # rest) # post)"
  note ext = fpPoly_bad_child [OF good bad, of u "atom ''fp_poly''" pre post]
  from ext obtain e0 where e0: "unmarshalFpPoly pf (Some ?c) = Inl e0" by blast
  have clause: "moduleClause pf pint (Some (clauses ! i)) out = Inl e0" for out
    unfolding poly by (subst moduleClause_fp_poly) (simp_all add: e0)
  note doc = DecodeModule_clause_fails [of Parse r, OF parse i clause]
  have "DecodeModule Parse pf pint r = Inl err"
    if "\<forall>j<i. \<forall>out. \<exists>out'. moduleClause pf pint (Some (clauses ! j)) out = Inr out'"
      and "\<exists>p0. unmarshalFpPoly pf (Some (Node u (atom ''fp_poly'' # pre))) = Inr p0"
  proof -
    have "e0 = err" using ext that(2) e0 by simp
    then show ?thesis using doc that(1) by simp
  qed
  then show ?thesis using doc by blast
qed


text \<open>A polygon whose other sub-clauses are read without failing decodes.\<close>

lemma fpPolyChild_ok:
  assumes "Child n x = Some c" and "polySubClauseOk pf c"
  shows "\<exists>p'. fpPolyChild pf n x p = Inr p'"
proof -
  from assms(2) obtain kw where kw: "keyword c = Some kw"
    by (auto simp: polySubClauseOk_def split: option.splits)
  then have ms: "MustString (Child (Some c) 0) = Inr kw"
    by (simp add: keyword_def MustString_def)
  consider (at) "kw = ''at''" | (pts) "kw = ''pts''" | (layer) "kw = ''layer''"
    | (width) "kw = ''width''"
    | (other) "kw \<noteq> ''at''" "kw \<noteq> ''pts''" "kw \<noteq> ''layer''" "kw \<noteq> ''width''"
    by blast
  then show ?thesis
  proof cases
    case at
    then have "\<exists>a b. Float64 pf (Child (Some c) 1) = Some a
        \<and> Float64 pf (Child (Some c) 2) = Some b"
      using assms(2) kw by (simp add: polySubClauseOk_def)
    then obtain a b where "MustFloat64 pf (Child (Some c) 1) = Inr a"
      "MustFloat64 pf (Child (Some c) 2) = Inr b"
      by (auto simp: MustFloat64_def)
    then show ?thesis
      unfolding fpPolyChild_def assms(1) ms by (simp add: at xyArgs_def)
  next
    case pts
    then show ?thesis using assms(2) kw by (simp add: polySubClauseOk_def)
  next
    case layer
    then have "\<exists>s. String (Child (Some c) 1) = Some s"
      using assms(2) kw by (simp add: polySubClauseOk_def)
    then obtain s where "MustString (Child (Some c) 1) = Inr s"
      by (auto simp: MustString_def)
    then show ?thesis
      unfolding fpPolyChild_def assms(1) ms by (simp add: layer)
  next
    case width
    then have "\<exists>a. Float64 pf (Child (Some c) 1) = Some a"
      using assms(2) kw by (simp add: polySubClauseOk_def)
    then obtain a where "MustFloat64 pf (Child (Some c) 1) = Inr a"
      by (auto simp: MustFloat64_def)
    then show ?thesis
      unfolding fpPolyChild_def assms(1) ms by (simp add: width)
  next
    case other
    then show ?thesis
      unfolding fpPolyChild_def assms(1) ms by simp
  qed
qed

lemma Child_other:
  assumes "1 \<le> i" and "i < length (h # pre @ c # post)" and "i \<noteq> Suc (length pre)"
  shows "\<exists>d \<in> set (pre @ post). Child (Some (Node u (h # pre @ c # post))) i = Some d"
proof (cases "i < Suc (length pre)")
  case True
  then have "Child (Some (Node u (h # pre @ c # post))) i = Some (pre ! (i - 1))"
    using assms(1) by (cases i) (simp_all add: Child_def Nth_def nth_append)
  moreover have "pre ! (i - 1) \<in> set pre" using True assms(1) by (cases i) simp_all
  ultimately show ?thesis by auto
next
  case False
  define j where "j = i - Suc (Suc (length pre))"
  have j: "i = Suc (Suc (length pre)) + j" "j < length post"
    using False assms(2,3) by (simp_all add: j_def)
  have "Child (Some (Node u (h # pre @ c # post))) (Suc (Suc (length pre)) + j) = Some (post ! j)"
    using j(2) by (simp add: Child_def Nth_def nth_append)
  then have "Child (Some (Node u (h # pre @ c # post))) i = Some (post ! j)"
    by (simp only: j(1))
  moreover have "post ! j \<in> set post" using j(2) by simp
  ultimately show ?thesis by auto
qed

lemma fpPoly_decodes:
  assumes xy: "list_all2 (xyChild pf) items pts"
    and ok: "list_all (polySubClauseOk pf) (pre @ post)"
  shows "\<exists>R. unmarshalFpPoly pf (Some (Node u (h # pre @ Node w (atom ''pts'' # items) # post))) =
      Inr R \<and> FpPoly.Points R = pts"
proof -
  let ?P = "Node w (atom ''pts'' # items)"
  let ?cs = "h # pre @ ?P # post"
  let ?n = "Some (Node u ?cs)"
  let ?k = "Suc (length pre)"
  have kwP: "keyword ?P = Some ''pts''"
    by (simp add: keyword_def Child_def Nth_def String_def NodeIsList_def)
  have childP: "Child ?n ?k = Some ?P"
    by (simp add: Child_def Nth_def nth_append)
  have round: "\<exists>b'. fpPolyChild pf ?n i b = Inr b'"
    if "1 \<le> i" "i < length (Children (Node u ?cs))" for i and b :: "'a FpPoly"
  proof (cases "i = ?k")
    case True
    show ?thesis
      unfolding True using fpPolyChild_pts [OF childP kwP, of pf b] pts_clause_xy [OF xy, of w b]
      by simp
  next
    case False
    from Child_other [OF that(1) _ False, of h ?P post u] that(2)
    obtain d where d: "d \<in> set (pre @ post)" "Child ?n i = Some d" by auto
    then have "polySubClauseOk pf d" using ok by (simp add: list_all_iff)
    then show ?thesis by (rule fpPolyChild_ok [OF d(2)])
  qed
  have "\<exists>a'. forChildren (fpPolyChild pf ?n) ?n 1 zeroPoly = Inr a' \<and> True"
    by (rule forChildren_succeeds [where P = "\<lambda>b. True"]) (use round in simp_all)
  then obtain R where R: "unmarshalFpPoly pf ?n = Inr R"
    by (auto simp: unmarshalFpPoly_rounds)
  have "\<forall>c \<in> set (pre @ post). keyword c \<noteq> Some ''pts''"
  proof
    fix c assume "c \<in> set (pre @ post)"
    then have "polySubClauseOk pf c" using ok by (simp add: list_all_iff)
    then show "keyword c \<noteq> Some ''pts''"
      by (auto simp: polySubClauseOk_def split: option.splits)
  qed
  then have "FpPoly.Points R = pts"
    using fpPoly_points [OF R xy] by simp
  with R show ?thesis by simp
qed


text \<open>
  C6, as stated, fails: a child of \<^verbatim>\<open>pts\<close> that is a scalar is not an \<^verbatim>\<open>xy\<close> record, and
  the decoder panics on it instead of returning the error.
\<close>

theorem C6_pts_scalar_child_counterexample:
  "DecodeModule (parsed (lst [lst [atom ''module'', atom ''M'',
      lst [atom ''fp_poly'', lst [atom ''pts'', atom ''abc'']]]])) litFloat litInt () =
   (Inl Panic :: error + real Module)"
  by (simp add: DecodeModule_def sexp_defs forChildren_Some moduleClause_def unmarshalFpPoly_def
      ptsItem_def cong: bind_weak_cong)

text \<open>
  C6, amended. Take a polygon clause \<^verbatim>\<open>(fp_poly ... (pts item ...) ...)\<close>.

  \<^item> When every child of \<^verbatim>\<open>pts\<close> is a two-argument \<^verbatim>\<open>xy\<close> list with numeric arguments and
    the other sub-clauses of the polygon are read without failing, none of them led by
    \<^verbatim>\<open>pts\<close>, the extractor returns a polygon whose points are those of the children, in
    source order.

  \<^item> When every child of \<^verbatim>\<open>pts\<close> is such a list and the extractor returns a polygon, the
    points of the children stand in its vertex sequence as one run, in source order, and
    are all of it when no other sub-clause is led by \<^verbatim>\<open>pts\<close>.

  \<^item> When the clause stands in a document \<^verbatim>\<open>(module name clause ...)\<close> and the first
    child of \<^verbatim>\<open>pts\<close> that is not such a list is a list led by a scalar keyword other than
    \<^verbatim>\<open>xy\<close>, the decode returns no module; when moreover the module clauses before the
    polygon decode and the polygon cut before \<^verbatim>\<open>pts\<close> decodes, the decode returns the
    error carrying that keyword.

  \<^item> When that child has no scalar keyword (it is a scalar, or a list led by a list), the
    decode returns no module, and under the same conditions it panics.
\<close>

theorem C6_pts_children:
  assumes parse: "Parse r = (Some (Node v [Node w0 (atom ''module'' # atom name # clauses)]), e)"
    and i: "i < length clauses"
    and poly: "clauses ! i = Node u (atom ''fp_poly'' # pre @ Node w (atom ''pts'' # items) # post)"
  shows "(list_all2 (xyChild pf) items pts \<and> list_all (polySubClauseOk pf) (pre @ post) \<longrightarrow>
            (\<exists>R. unmarshalFpPoly pf (Some (clauses ! i)) = Inr R \<and> FpPoly.Points R = pts))
    \<and> (list_all2 (xyChild pf) items pts \<and> unmarshalFpPoly pf (Some (clauses ! i)) = Inr R \<longrightarrow>
            (\<exists>before after. FpPoly.Points R = before @ pts @ after)
            \<and> ((\<forall>c \<in> set (pre @ post). keyword c \<noteq> Some ''pts'') \<longrightarrow> FpPoly.Points R = pts))
    \<and> (items = good @ bad # rest \<and> list_all2 (xyChild pf) good pts \<and> keyword bad = Some kw
          \<and> kw \<noteq> ''xy'' \<longrightarrow>
            (\<exists>err. DecodeModule Parse pf pint r = Inl err)
            \<and> ((\<forall>j<i. \<forall>out. \<exists>out'. moduleClause pf pint (Some (clauses ! j)) out = Inr out')
                  \<and> (\<exists>p0. unmarshalFpPoly pf (Some (Node u (atom ''fp_poly'' # pre))) = Inr p0)
                \<longrightarrow> DecodeModule Parse pf pint r = Inl (ErrPts kw)))
    \<and> (items = good @ bad # rest \<and> list_all2 (xyChild pf) good pts \<and> keyword bad = None \<longrightarrow>
            (\<exists>err. DecodeModule Parse pf pint r = Inl err)
            \<and> ((\<forall>j<i. \<forall>out. \<exists>out'. moduleClause pf pint (Some (clauses ! j)) out = Inr out')
                  \<and> (\<exists>p0. unmarshalFpPoly pf (Some (Node u (atom ''fp_poly'' # pre))) = Inr p0)
                \<longrightarrow> DecodeModule Parse pf pint r = Inl Panic))"
proof -
  have A: "\<exists>R. unmarshalFpPoly pf (Some (clauses ! i)) = Inr R \<and> FpPoly.Points R = pts"
    if "list_all2 (xyChild pf) items pts \<and> list_all (polySubClauseOk pf) (pre @ post)"
    unfolding poly using that by (intro fpPoly_decodes) simp_all
  have B: "(\<exists>before after. FpPoly.Points R = before @ pts @ after)
      \<and> ((\<forall>c \<in> set (pre @ post). keyword c \<noteq> Some ''pts'') \<longrightarrow> FpPoly.Points R = pts)"
    if "list_all2 (xyChild pf) items pts \<and> unmarshalFpPoly pf (Some (clauses ! i)) = Inr R"
  proof -
    from that have dec: "unmarshalFpPoly pf
        (Some (Node u (atom ''fp_poly'' # pre @ Node w (atom ''pts'' # items) # post))) = Inr R"
      and xy: "list_all2 (xyChild pf) items pts"
      by (simp_all add: poly)
    show ?thesis by (rule fpPoly_points [OF dec xy])
  qed
  have C: "(\<exists>err. DecodeModule Parse pf pint r = Inl err)
      \<and> ((\<forall>j<i. \<forall>out. \<exists>out'. moduleClause pf pint (Some (clauses ! j)) out = Inr out')
            \<and> (\<exists>p0. unmarshalFpPoly pf (Some (Node u (atom ''fp_poly'' # pre))) = Inr p0)
          \<longrightarrow> DecodeModule Parse pf pint r = Inl (ErrPts kw))"
    if c: "items = good @ bad # rest \<and> list_all2 (xyChild pf) good pts \<and> keyword bad = Some kw
          \<and> kw \<noteq> ''xy''"
  proof (rule DecodeModule_bad_pts_child [of Parse r, OF parse i])
    show "clauses ! i =
        Node u (atom ''fp_poly'' # pre @ Node w (atom ''pts'' # good @ bad # rest) # post)"
      using poly c by simp
    show "list_all2 (xyChild pf) good pts" using c by simp
    show "ptsItem pf (Some (Node w (atom ''pts'' # good @ bad # rest))) (Suc (length good)) q =
        Inl (ErrPts kw)" for q
      by (rule ptsItem_keyword) (use c in \<open>simp_all add: nth_append\<close>)
  qed
  have D: "(\<exists>err. DecodeModule Parse pf pint r = Inl err)
      \<and> ((\<forall>j<i. \<forall>out. \<exists>out'. moduleClause pf pint (Some (clauses ! j)) out = Inr out')
            \<and> (\<exists>p0. unmarshalFpPoly pf (Some (Node u (atom ''fp_poly'' # pre))) = Inr p0)
          \<longrightarrow> DecodeModule Parse pf pint r = Inl Panic)"
    if c: "items = good @ bad # rest \<and> list_all2 (xyChild pf) good pts \<and> keyword bad = None"
  proof (rule DecodeModule_bad_pts_child [of Parse r, OF parse i])
    show "clauses ! i =
        Node u (atom ''fp_poly'' # pre @ Node w (atom ''pts'' # good @ bad # rest) # post)"
      using poly c by simp
    show "list_all2 (xyChild pf) good pts" using c by simp
    show "ptsItem pf (Some (Node w (atom ''pts'' # good @ bad # rest))) (Suc (length good)) q =
        Inl Panic" for q
      by (rule ptsItem_no_keyword) (use c in \<open>simp_all add: nth_append\<close>)
  qed
  show ?thesis
  proof (intro conjI impI)
    assume "list_all2 (xyChild pf) items pts \<and> list_all (polySubClauseOk pf) (pre @ post)"
    then show "\<exists>R. unmarshalFpPoly pf (Some (clauses ! i)) = Inr R \<and> FpPoly.Points R = pts"
      by (rule A)
  next
    assume "list_all2 (xyChild pf) items pts \<and> unmarshalFpPoly pf (Some (clauses ! i)) = Inr R"
    then show "\<exists>before after. FpPoly.Points R = before @ pts @ after" using B by simp
  next
    assume "list_all2 (xyChild pf) items pts \<and> unmarshalFpPoly pf (Some (clauses ! i)) = Inr R"
      and "\<forall>c \<in> set (pre @ post). keyword c \<noteq> Some ''pts''"
    then show "FpPoly.Points R = pts" using B by simp
  next
    assume "items = good @ bad # rest \<and> list_all2 (xyChild pf) good pts \<and> keyword bad = Some kw
          \<and> kw \<noteq> ''xy''"
    then show "\<exists>err. DecodeModule Parse pf pint r = Inl err" using C by simp
  next
    assume "items = good @ bad # rest \<and> list_all2 (xyChild pf) good pts \<and> keyword bad = Some kw
          \<and> kw \<noteq> ''xy''"
      and "(\<forall>j<i. \<forall>out. \<exists>out'. moduleClause pf pint (Some (clauses ! j)) out = Inr out')
            \<and> (\<exists>p0. unmarshalFpPoly pf (Some (Node u (atom ''fp_poly'' # pre))) = Inr p0)"
    then show "DecodeModule Parse pf pint r = Inl (ErrPts kw)" using C by simp
  next
    assume "items = good @ bad # rest \<and> list_all2 (xyChild pf) good pts \<and> keyword bad = None"
    then show "\<exists>err. DecodeModule Parse pf pint r = Inl err" using D by simp
  next
    assume "items = good @ bad # rest \<and> list_all2 (xyChild pf) good pts \<and> keyword bad = None"
      and "(\<forall>j<i. \<forall>out. \<exists>out'. moduleClause pf pint (Some (clauses ! j)) out = Inr out')
            \<and> (\<exists>p0. unmarshalFpPoly pf (Some (Node u (atom ''fp_poly'' # pre))) = Inr p0)"
    then show "DecodeModule Parse pf pint r = Inl Panic" using D by simp
  qed
qed

theorem C6_pts_children_witness:
  "(\<exists>R. unmarshalFpPoly litFloat (Some (lst [atom ''fp_poly'',
        lst [atom ''layer'', atom ''F.SilkS''],
        lst [atom ''pts'', lst [atom ''xy'', atom ''0'', atom ''0''],
          lst [atom ''xy'', atom ''1'', atom ''0''], lst [atom ''xy'', atom ''1'', atom ''1'']],
        lst [atom ''width'', atom ''0.1'']])) = Inr R
      \<and> FpPoly.Points R = [\<lparr>X = 0, Y = 0\<rparr>, \<lparr>X = 1, Y = 0\<rparr>, \<lparr>X = 1, Y = 1 :: real\<rparr>])
   \<and> (\<exists>R. unmarshalFpPoly litFloat (Some (lst [atom ''fp_poly'',
        lst [atom ''layer'', atom ''F.SilkS''],
        lst [atom ''pts'', lst [atom ''xy'', atom ''1'', atom ''1''],
          lst [atom ''xy'', atom ''1'', atom ''0''], lst [atom ''xy'', atom ''0'', atom ''0'']],
        lst [atom ''width'', atom ''0.1'']])) = Inr R
      \<and> FpPoly.Points R = [\<lparr>X = 1, Y = 1\<rparr>, \<lparr>X = 1, Y = 0\<rparr>, \<lparr>X = 0, Y = 0 :: real\<rparr>])
   \<and> DecodeModule (parsed (lst [lst [atom ''module'', atom ''M'',
        lst [atom ''layer'', atom ''F.Cu''],
        lst [atom ''fp_poly'', lst [atom ''layer'', atom ''F.SilkS''],
          lst [atom ''pts'', lst [atom ''xy'', atom ''0'', atom ''0''],
            lst [atom ''xz'', atom ''1'', atom ''0''], atom ''abc'']]]])) litFloat litInt () =
      (Inl (ErrPts ''xz'') :: error + real Module)
   \<and> DecodeModule (parsed (lst [lst [atom ''module'', atom ''M'',
        lst [atom ''layer'', atom ''F.Cu''],
        lst [atom ''fp_poly'',
          lst [atom ''pts'', lst [atom ''xy'', atom ''0'', atom ''0''], atom ''abc'',
            lst [atom ''xz'', atom ''1'', atom ''0'']]]]])) litFloat litInt () =
      (Inl Panic :: error + real Module)"
proof -
  let ?p00 = "lst [atom ''xy'', atom ''0'', atom ''0'']"
  let ?p10 = "lst [atom ''xy'', atom ''1'', atom ''0'']"
  let ?p11 = "lst [atom ''xy'', atom ''1'', atom ''1'']"
  let ?layer = "lst [atom ''layer'', atom ''F.SilkS'']"
  let ?width = "lst [atom ''width'', atom ''0.1'']"
  let ?xz = "lst [atom ''xz'', atom ''1'', atom ''0'']"
  have xy3: "list_all2 (xyChild litFloat) [?p00, ?p10, ?p11]
      [\<lparr>X = 0, Y = 0\<rparr>, \<lparr>X = 1, Y = 0\<rparr>, \<lparr>X = 1, Y = 1 :: real\<rparr>]"
    by (simp add: xyChild_def Float64_def NodeIsList_def litFloat_def)
  have xy3': "list_all2 (xyChild litFloat) [?p11, ?p10, ?p00]
      [\<lparr>X = 1, Y = 1\<rparr>, \<lparr>X = 1, Y = 0\<rparr>, \<lparr>X = 0, Y = 0 :: real\<rparr>]"
    by (simp add: xyChild_def Float64_def NodeIsList_def litFloat_def)
  have xy1: "list_all2 (xyChild litFloat) [?p00] [\<lparr>X = 0, Y = 0 :: real\<rparr>]"
    by (simp add: xyChild_def Float64_def NodeIsList_def litFloat_def)
  have others: "list_all (polySubClauseOk litFloat) ([?layer] @ [?width])"
    by (simp add: polySubClauseOk_def keyword_def Child_def Nth_def String_def Float64_def
        NodeIsList_def litFloat_def)
  have earlier: "\<forall>j<1. \<forall>out :: real Module. \<exists>out'. moduleClause litFloat litInt
      (Some ((lst [atom ''layer'', atom ''F.Cu''] # cs) ! j)) out = Inr out'" for cs
    by (simp add: moduleClause_def sexp_defs)
  have front1: "\<exists>p0 :: real FpPoly. unmarshalFpPoly litFloat
      (Some (Node [] (atom ''fp_poly'' # [?layer]))) = Inr p0"
    by (simp add: unmarshalFpPoly_def forChildren_Some sexp_defs cong: bind_weak_cong)
  have front0: "\<exists>p0 :: real FpPoly. unmarshalFpPoly litFloat
      (Some (Node [] (atom ''fp_poly'' # []))) = Inr p0"
    by (simp add: unmarshalFpPoly_def forChildren_Some sexp_defs cong: bind_weak_cong)
  have kw_xz: "keyword ?xz = Some ''xz''"
    by (simp add: keyword_def Child_def Nth_def String_def NodeIsList_def)
  have kw_abc: "keyword (atom ''abc'') = None"
    by (simp add: keyword_def Child_def Nth_def String_def NodeIsList_def)
  have w1: "\<exists>R. unmarshalFpPoly litFloat (Some (lst [atom ''fp_poly'', ?layer,
        lst [atom ''pts'', ?p00, ?p10, ?p11], ?width])) = Inr R
      \<and> FpPoly.Points R = [\<lparr>X = 0, Y = 0\<rparr>, \<lparr>X = 1, Y = 0\<rparr>, \<lparr>X = 1, Y = 1 :: real\<rparr>]"
    using C6_pts_children [where Parse = "parsed (lst [lst [atom ''module'', atom ''M'',
          lst [atom ''fp_poly'', ?layer, lst [atom ''pts'', ?p00, ?p10, ?p11], ?width]]])"
        and r = "()" and i = 0 and name = "''M''" and e = None
        and clauses = "[lst [atom ''fp_poly'', ?layer, lst [atom ''pts'', ?p00, ?p10, ?p11],
          ?width]]"
        and pre = "[?layer]" and post = "[?width]" and items = "[?p00, ?p10, ?p11]"
        and pf = litFloat and u = "[]" and v = "[]" and w = "[]" and w0 = "[]"
        and pts = "[\<lparr>X = 0, Y = 0\<rparr>, \<lparr>X = 1, Y = 0\<rparr>, \<lparr>X = 1, Y = 1 :: real\<rparr>]"]
      xy3 others
    by simp
  have w2: "\<exists>R. unmarshalFpPoly litFloat (Some (lst [atom ''fp_poly'', ?layer,
        lst [atom ''pts'', ?p11, ?p10, ?p00], ?width])) = Inr R
      \<and> FpPoly.Points R = [\<lparr>X = 1, Y = 1\<rparr>, \<lparr>X = 1, Y = 0\<rparr>, \<lparr>X = 0, Y = 0 :: real\<rparr>]"
    using C6_pts_children [where Parse = "parsed (lst [lst [atom ''module'', atom ''M'',
          lst [atom ''fp_poly'', ?layer, lst [atom ''pts'', ?p11, ?p10, ?p00], ?width]]])"
        and r = "()" and i = 0 and name = "''M''" and e = None
        and clauses = "[lst [atom ''fp_poly'', ?layer, lst [atom ''pts'', ?p11, ?p10, ?p00],
          ?width]]"
        and pre = "[?layer]" and post = "[?width]" and items = "[?p11, ?p10, ?p00]"
        and pf = litFloat and u = "[]" and v = "[]" and w = "[]" and w0 = "[]"
        and pts = "[\<lparr>X = 1, Y = 1\<rparr>, \<lparr>X = 1, Y = 0\<rparr>, \<lparr>X = 0, Y = 0 :: real\<rparr>]"]
      xy3' others
    by simp
  have w3: "DecodeModule (parsed (lst [lst [atom ''module'', atom ''M'',
        lst [atom ''layer'', atom ''F.Cu''],
        lst [atom ''fp_poly'', ?layer, lst [atom ''pts'', ?p00, ?xz, atom ''abc'']]]]))
        litFloat litInt () = (Inl (ErrPts ''xz'') :: error + real Module)"
    using C6_pts_children [where Parse = "parsed (lst [lst [atom ''module'', atom ''M'',
          lst [atom ''layer'', atom ''F.Cu''],
          lst [atom ''fp_poly'', ?layer, lst [atom ''pts'', ?p00, ?xz, atom ''abc'']]]])"
        and r = "()" and i = 1 and name = "''M''" and e = None
        and clauses = "[lst [atom ''layer'', atom ''F.Cu''],
          lst [atom ''fp_poly'', ?layer, lst [atom ''pts'', ?p00, ?xz, atom ''abc'']]]"
        and pre = "[?layer]" and post = "[]" and items = "[?p00, ?xz, atom ''abc'']"
        and good = "[?p00]" and bad = "?xz" and rest = "[atom ''abc'']" and kw = "''xz''"
        and pf = litFloat and pint = litInt
        and u = "[]" and v = "[]" and w = "[]" and w0 = "[]"
        and pts = "[\<lparr>X = 0, Y = 0 :: real\<rparr>]"]
      xy1 kw_xz front1
      earlier [of "[lst [atom ''fp_poly'', ?layer, lst [atom ''pts'', ?p00, ?xz, atom ''abc'']]]"]
    by simp
  have w4: "DecodeModule (parsed (lst [lst [atom ''module'', atom ''M'',
        lst [atom ''layer'', atom ''F.Cu''],
        lst [atom ''fp_poly'', lst [atom ''pts'', ?p00, atom ''abc'', ?xz]]]]))
        litFloat litInt () = (Inl Panic :: error + real Module)"
    using C6_pts_children [where Parse = "parsed (lst [lst [atom ''module'', atom ''M'',
          lst [atom ''layer'', atom ''F.Cu''],
          lst [atom ''fp_poly'', lst [atom ''pts'', ?p00, atom ''abc'', ?xz]]]])"
        and r = "()" and i = 1 and name = "''M''" and e = None
        and clauses = "[lst [atom ''layer'', atom ''F.Cu''],
          lst [atom ''fp_poly'', lst [atom ''pts'', ?p00, atom ''abc'', ?xz]]]"
        and pre = "[]" and post = "[]" and items = "[?p00, atom ''abc'', ?xz]"
        and good = "[?p00]" and bad = "atom ''abc''" and rest = "[?xz]"
        and pf = litFloat and pint = litInt
        and u = "[]" and v = "[]" and w = "[]" and w0 = "[]"
        and pts = "[\<lparr>X = 0, Y = 0 :: real\<rparr>]"]
      xy1 kw_abc front0
      earlier [of "[lst [atom ''fp_poly'', lst [atom ''pts'', ?p00, atom ''abc'', ?xz]]]"]
    by simp
  show ?thesis using w1 w2 w3 w4 by simp
qed


section \<open>Pad identifiers\<close>










section \<open>Text styling\<close>








text \<open>The whole extractor on a text with styling nested as the format has it.\<close>

lemma fp_text_effects_font_example:
  "unmarshalFpText litFloat (Some (lst [atom ''fp_text'', atom ''reference'', atom ''R'',
      lst [atom ''effects'', lst [atom ''font'', lst [atom ''size'', atom ''1'', atom ''2''],
        lst [atom ''thickness'', atom ''0.2'']]]])) =
   Inr \<lparr>FpText.Pos = \<lparr>X = 0, Y = 0\<rparr>, FpText.Kind = ''reference'', FpText.Value = ''R'',
     FpText.Layer = [], FpText.Hidden = False, FpText.Size = \<lparr>X = 1, Y = 2 :: real\<rparr>,
     FpText.Thickness = 2 / 10\<rparr>"
  by (simp add: unmarshalFpText_def fpTextChild_def effectsItem_def sexp_defs forChildren_Some
      zeroText_def zeroPoint_def xyArgs_def litFloat_def cong: bind_weak_cong)

text \<open>An \<^verbatim>\<open>effects\<close> clause without a second child makes the extractor panic.\<close>

lemma fp_text_bare_effects_panics:
  "unmarshalFpText litFloat (Some (lst [atom ''fp_text'', atom ''reference'', atom ''R'',
      lst [atom ''effects'']])) = (Inl Panic :: error + real FpText)"
  by (simp add: unmarshalFpText_def fpTextChild_def sexp_defs forChildren_Some forChildren_None
      cong: bind_weak_cong)


section \<open>The error of the parser\<close>

text \<open>
  C10, as stated, fails: a failed parse that returns no node (a nil pointer) with its error
  makes the decoder panic at the first check; the caller sees neither the error of a
  structural check nor a success.
\<close>

theorem C10_nil_node_counterexample:
  "DecodeModule (\<lambda>u :: unit. (None, Some ''unexpected end of input'')) litFloat litInt () =
   (Inl Panic :: error + real Module)"
  by (simp add: DecodeModule_def)

text \<open>
  C10, amended. The decoder never reads the error value of the parser: two parses that
  return the same node pointer decode alike, whatever errors they return, so a failure of
  the parser is never reported as such. When the parse returned a node, the outcome is
  that of the structural checks (and of the decoding after them) on that node: a node
  that is not a list fails the first check and a list that has not exactly one child fails
  the second, with their own errors. When the parse returned no node, the first check
  panics.
\<close>

theorem C10_parse_error_discarded:
  assumes "fst (Parse r) = fst (Parse' r')"
  shows "DecodeModule Parse pf pint r = DecodeModule Parse' pf pint r'
    \<and> (fst (Parse r) = None \<longrightarrow> DecodeModule Parse pf pint r = Inl Panic)
    \<and> (\<forall>a. fst (Parse r) = Some a \<and> \<not> NodeIsList a \<longrightarrow>
          DecodeModule Parse pf pint r =
            Inl (Err ''invalid format: expected s-expression list at top level''))
    \<and> (\<forall>a. fst (Parse r) = Some a \<and> NodeIsList a \<and> NumChildren a \<noteq> 1 \<longrightarrow>
          DecodeModule Parse pf pint r =
            Inl (Err ''invalid format: top level list of size 1''))"
proof (intro conjI allI impI)
  show "DecodeModule Parse pf pint r = DecodeModule Parse' pf pint r'"
    using assms by (cases "Parse r"; cases "Parse' r'") (simp add: DecodeModule_def)
next
  assume "fst (Parse r) = None"
  then show "DecodeModule Parse pf pint r = Inl Panic"
    by (cases "Parse r") (simp add: DecodeModule_def)
next
  fix a
  assume "fst (Parse r) = Some a \<and> \<not> NodeIsList a"
  then show "DecodeModule Parse pf pint r =
      Inl (Err ''invalid format: expected s-expression list at top level'')"
    by (cases "Parse r") (simp add: DecodeModule_def)
next
  fix a
  assume "fst (Parse r) = Some a \<and> NodeIsList a \<and> NumChildren a \<noteq> 1"
  then show "DecodeModule Parse pf pint r =
      Inl (Err ''invalid format: top level list of size 1'')"
    by (cases "Parse r") (simp add: DecodeModule_def)
qed

theorem C10_parse_error_discarded_witness:
  "DecodeModule (\<lambda>u :: unit. (None, Some ''unexpected end of input'')) litFloat litInt () =
    (Inl Panic :: error + real Module)
   \<and> DecodeModule (\<lambda>u :: unit. (Some (atom ''module''), Some ''unexpected end of input''))
     litFloat litInt () =
    (Inl (Err ''invalid format: expected s-expression list at top level'') :: error + real Module)
   \<and> DecodeModule
     (\<lambda>u :: unit. (Some (lst [atom ''module'', atom ''M'']), Some ''unexpected end of input''))
     litFloat litInt () =
    (Inl (Err ''invalid format: top level list of size 1'') :: error + real Module)
   \<and> DecodeModule
     (\<lambda>u :: unit. (Some (lst [lst [atom ''module'', atom ''M'']]),
        Some ''unexpected end of input''))
     litFloat litInt () =
    (Inl (Err ''invalid format: missing minimum elements'') :: error + real Module)"
proof -
  let ?P = "\<lambda>n. (\<lambda>u :: unit. (n, Some ''unexpected end of input''))"
  have 1: "DecodeModule (?P None) litFloat litInt () = (Inl Panic :: error + real Module)"
    using C10_parse_error_discarded [where Parse = "?P None" and r = "()"
        and Parse' = "?P None" and r' = "()" and pf = litFloat and pint = litInt]
    by simp
  have 2: "DecodeModule (?P (Some (atom ''module''))) litFloat litInt () =
    (Inl (Err ''invalid format: expected s-expression list at top level'') :: error + real Module)"
    using C10_parse_error_discarded [where Parse = "?P (Some (atom ''module''))" and r = "()"
        and Parse' = "?P (Some (atom ''module''))" and r' = "()" and pf = litFloat
        and pint = litInt]
    by (simp add: NodeIsList_def)
  have 3: "DecodeModule (?P (Some (lst [atom ''module'', atom ''M'']))) litFloat litInt () =
    (Inl (Err ''invalid format: top level list of size 1'') :: error + real Module)"
    using C10_parse_error_discarded [where Parse = "?P (Some (lst [atom ''module'', atom ''M'']))"
        and r = "()" and Parse' = "?P (Some (lst [atom ''module'', atom ''M'']))" and r' = "()"
        and pf = litFloat and pint = litInt]
    by (simp add: NodeIsList_def NumChildren_def)
  have 4: "DecodeModule (?P (Some (lst [lst [atom ''module'', atom ''M'']]))) litFloat litInt () =
      (Inl (Err ''invalid format: missing minimum elements'') :: error + real Module)"
    using C10_parse_error_discarded [where Parse = "?P (Some (lst [lst [atom ''module'', atom ''M'']]))"
        and r = "()" and Parse' = "parsed (lst [lst [atom ''module'', atom ''M'']])" and r' = "()"
        and pf = litFloat and pint = litInt]
    by (simp add: DecodeModule_def sexp_defs)
  show ?thesis using 1 2 3 4 by simp
qed


text \<open>On a nil node pointer the first check of the decoder panics.\<close>

lemma DecodeModule_nil_node:
  "fst (Parse r) = None \<Longrightarrow> DecodeModule Parse pf pint r = Inl Panic"
  by (cases "Parse r") (simp add: DecodeModule_def)


end
